theory Spec2Isabelle
  imports Complex_Main "HOL-Library.Word" "HOL-Library.Log_Nat"
begin

section \<open>Machine values\<close>

text \<open>
  A C \<open>int\<close> is a 32-bit word: \<open>+\<close> and \<open>*\<close> wrap around, \<open>sint\<close> reads the
  two's-complement value, \<open><s\<close> is the signed comparison of the loop headers.

  A finite C \<open>float\<close> or \<open>double\<close> is modelled by the real number it holds; infinities
  and NaN have no counterpart. Comparison and assignment are exact, also from \<open>float\<close> to
  \<open>double\<close>. An addition or a division in \<open>double\<close> is the exact operation followed by
  the rounding of IEEE 754 binary64, to the nearest value with 53 significant bits, ties to
  the even one. The exponent is not bounded: sums of fewer than \<open>2^31\<close> finite \<open>float\<close>s
  and their quotient by a non-zero \<open>int\<close> stay far inside the range of the normal numbers
  of \<open>double\<close>. A division by zero, which yields an infinity or a NaN, is written out as
  \<open>None\<close>.
\<close>

type_synonym cint = "32 word"

text \<open>The nearest integer, ties to even.\<close>

definition round_even :: "real \<Rightarrow> int" where
  "round_even x =
     (let f = \<lfloor>x\<rfloor>; r = x - of_int f
      in if r < 1 / 2 then f else if 1 / 2 < r then f + 1 else if even f then f else f + 1)"

text \<open>The exponent \<open>e\<close> of a non-zero \<open>x\<close>: \<open>2^e \<le> |x| < 2^(e+1)\<close>.\<close>

definition binade :: "real \<Rightarrow> int" where
  "binade x = (if 1 \<le> \<bar>x\<bar> then bitlen \<lfloor>\<bar>x\<bar>\<rfloor> - 1 else - bitlen (\<lceil>1 / \<bar>x\<bar>\<rceil> - 1))"

text \<open>Rounding to 53 significant bits: a multiple of \<open>2^(e-52)\<close>.\<close>

definition round_double :: "real \<Rightarrow> real" where
  "round_double x =
     (if x = 0 then 0
      else of_int (round_even (x / 2 powi (binade x - 52))) * 2 powi (binade x - 52))"

text \<open>\<open>a + b\<close> in \<open>double\<close>, and \<open>a / n\<close> for a \<open>double\<close> \<open>a\<close> and a non-zero \<open>int\<close>
  \<open>n\<close>, which is converted to \<open>double\<close> exactly.\<close>

definition double_add :: "real \<Rightarrow> real \<Rightarrow> real" where
  "double_add a b = round_double (a + b)"

definition double_div :: "real \<Rightarrow> int \<Rightarrow> real" where
  "double_div a n = round_double (a / real_of_int n)"

section \<open>Level statistics: \<open>print_statistics\<close>\<close>

text \<open>
  A read \<open>data[n]\<close> outside the allocated buffer is undefined behaviour in C; the model
  stops there with the offending index.
\<close>

datatype fault = Out_of_bounds int

text \<open>
  One output line of \<open>printf("%i %lf %lf %lf\n", k+1, avg / (nx * ny), min, max)\<close>:
  the constructor's arguments are the printed fields in the order of the format string.
\<close>

datatype stat_line =
  Stat_line (line_level: int) (line_mean: "real option") (line_min: real) (line_max: real)

definition read_sample :: "real list \<Rightarrow> cint \<Rightarrow> fault + real" where
  "read_sample data n =
     (if 0 \<le> sint n \<and> nat (sint n) < length data then Inr (data ! nat (sint n))
      else Inl (Out_of_bounds (sint n)))"

text \<open>The subscript \<open>k * nx * ny + j * nx + i\<close>, computed in \<open>int\<close>.\<close>

definition sample_index :: "cint \<Rightarrow> cint \<Rightarrow> cint \<Rightarrow> cint \<Rightarrow> cint \<Rightarrow> cint" where
  "sample_index nx ny k j i = k * nx * ny + j * nx + i"

text \<open>The innermost loop \<open>for(i=0; i<nx; i++)\<close>, entered at counter \<open>i\<close> with
  the accumulators \<open>(min, max, avg)\<close>.\<close>

function x_loop ::
  "real list \<Rightarrow> cint \<Rightarrow> cint \<Rightarrow> cint \<Rightarrow> cint \<Rightarrow> cint \<Rightarrow> real \<times> real \<times> real
     \<Rightarrow> fault + real \<times> real \<times> real" where
  "x_loop data nx ny k j i (mn, mx, avg) =
     (if i <s nx then
        (case read_sample data (sample_index nx ny k j i) of
           Inl e \<Rightarrow> Inl e
         | Inr d \<Rightarrow>
             x_loop data nx ny k j (i + 1)
               (if d < mn then d else mn, if d > mx then d else mx, double_add avg d))
      else Inr (mn, mx, avg))"
  by pat_completeness auto
termination
proof (relation "measure (\<lambda>(data, nx, ny, k, j, i, acc). nat (sint nx - sint i))", goal_cases)
  case 1
  show ?case by simp
next
  case (2 data nx ny k j i)
  then have lt: "sint i < sint nx" by (simp add: word_sless_alt)
  have "sint nx < 2 ^ 31" using sint_lt [of nx] by simp
  moreover have "- (2 ^ 31) \<le> sint i" using sint_ge [of i] by simp
  ultimately have r: "- (2 ^ 31) \<le> sint i + 1" "sint i + 1 < 2 ^ 31"
    using lt by simp_all
  have "sint (word_of_int x :: cint) = x" if "- (2 ^ 31) \<le> x" and "x < 2 ^ 31" for x
    using that by (simp add: int_word_sint)
  from this [OF r] have "sint (i + 1) = sint i + 1" by simp
  then show ?case using lt by simp
qed

text \<open>The middle loop \<open>for(j=0; j<ny; j++)\<close>.\<close>

function y_loop ::
  "real list \<Rightarrow> cint \<Rightarrow> cint \<Rightarrow> cint \<Rightarrow> cint \<Rightarrow> real \<times> real \<times> real
     \<Rightarrow> fault + real \<times> real \<times> real" where
  "y_loop data nx ny k j acc =
     (if j <s ny then
        (case x_loop data nx ny k j 0 acc of
           Inl e \<Rightarrow> Inl e
         | Inr acc' \<Rightarrow> y_loop data nx ny k (j + 1) acc')
      else Inr acc)"
  by pat_completeness auto
termination
proof (relation "measure (\<lambda>(data, nx, ny, k, j, acc). nat (sint ny - sint j))", goal_cases)
  case 1
  show ?case by simp
next
  case (2 data nx ny k j)
  then have lt: "sint j < sint ny" by (simp add: word_sless_alt)
  have "sint ny < 2 ^ 31" using sint_lt [of ny] by simp
  moreover have "- (2 ^ 31) \<le> sint j" using sint_ge [of j] by simp
  ultimately have r: "- (2 ^ 31) \<le> sint j + 1" "sint j + 1 < 2 ^ 31"
    using lt by simp_all
  have "sint (word_of_int x :: cint) = x" if "- (2 ^ 31) \<le> x" and "x < 2 ^ 31" for x
    using that by (simp add: int_word_sint)
  from this [OF r] have "sint (j + 1) = sint j + 1" by simp
  then show ?case using lt by simp
qed

text \<open>The quotient \<open>avg / (nx * ny)\<close>, in \<open>double\<close>: the divisor is the \<open>int\<close>
  product.\<close>

definition mean_of :: "real \<Rightarrow> cint \<Rightarrow> real option" where
  "mean_of avg n = (if sint n = 0 then None else Some (double_div avg (sint n)))"

text \<open>
  The outer loop \<open>for(k=0; k<nz; k++)\<close>. Every level starts from
  \<open>min = 0.0; max = 0.0; avg = 0.0\<close> and ends with its line. The result is the lines
  printed so far and the fault that stopped the loop, if any.
\<close>

function z_loop ::
  "real list \<Rightarrow> cint \<Rightarrow> cint \<Rightarrow> cint \<Rightarrow> cint \<Rightarrow> stat_line list
     \<Rightarrow> stat_line list \<times> fault option" where
  "z_loop data nx ny nz k out =
     (if k <s nz then
        (case y_loop data nx ny k 0 (0, 0, 0) of
           Inl e \<Rightarrow> (out, Some e)
         | Inr (mn, mx, avg) \<Rightarrow>
             z_loop data nx ny nz (k + 1)
               (out @ [Stat_line (sint (k + 1)) (mean_of avg (nx * ny)) mn mx]))
      else (out, None))"
  by pat_completeness auto
termination
proof (relation "measure (\<lambda>(data, nx, ny, nz, k, out). nat (sint nz - sint k))", goal_cases)
  case 1
  show ?case by simp
next
  case (2 data nx ny nz k)
  then have lt: "sint k < sint nz" by (simp add: word_sless_alt)
  have "sint nz < 2 ^ 31" using sint_lt [of nz] by simp
  moreover have "- (2 ^ 31) \<le> sint k" using sint_ge [of k] by simp
  ultimately have r: "- (2 ^ 31) \<le> sint k + 1" "sint k + 1 < 2 ^ 31"
    using lt by simp_all
  have "sint (word_of_int x :: cint) = x" if "- (2 ^ 31) \<le> x" and "x < 2 ^ 31" for x
    using that by (simp add: int_word_sint)
  from this [OF r] have "sint (k + 1) = sint k + 1" by simp
  then show ?case using lt by simp
qed

definition print_statistics ::
  "real list \<Rightarrow> cint \<Rightarrow> cint \<Rightarrow> cint \<Rightarrow> stat_line list \<times> fault option" where
  "print_statistics data nx ny nz = z_loop data nx ny nz 0 []"

section \<open>The conversion run: \<open>main\<close>\<close>

text \<open>
  The variables of \<open>main\<close> that the option loop sets, with their initial values. The
  loop itself (\<open>getopt_long\<close>, \<open>atoi\<close>, \<open>atof\<close>, \<open>strncpy\<close>) only fills this record.
\<close>

record config =
  cfg_inputfile :: string
  cfg_outputfile :: string
  cfg_nx :: cint
  cfg_ny :: cint
  cfg_nz :: cint
  cfg_wsize :: cint
  cfg_issigned :: cint
  cfg_verbose :: cint
  cfg_endianness :: cint
  cfg_scale :: real

definition BIG_ENDIAN :: cint where
  "BIG_ENDIAN = 0"

definition LITTLE_ENDIAN :: cint where
  "LITTLE_ENDIAN = 1"

definition initial_config :: config where
  "initial_config =
     \<lparr>cfg_inputfile = [], cfg_outputfile = [], cfg_nx = 1, cfg_ny = 1, cfg_nz = 1,
      cfg_wsize = 4, cfg_issigned = 0, cfg_verbose = 0, cfg_endianness = BIG_ENDIAN,
      cfg_scale = 1\<rparr>"

subsection \<open>What the program calls and does not define\<close>

text \<open>
  The arguments of the call \<open>read_geogrid(inputfile, &filenamelen, data, &nx, &ny, &nz,
  &issigned, &endianness, &scale, &wsize, &status)\<close>, in the order of the call. The decoder
  is not part of this program. It is a parameter of the model: from its arguments it
  gives the contents of the buffer after the call and the value left in \<open>status\<close>.
  The scalars are passed by address for the Fortran calling convention and are taken
  to be read only.
\<close>

record geogrid_args =
  arg_fname :: string
  arg_len :: cint
  arg_nx :: cint
  arg_ny :: cint
  arg_nz :: cint
  arg_isigned :: cint
  arg_endian :: cint
  arg_scalefactor :: real
  arg_wordsize :: cint

text \<open>
  The netCDF library is a parameter as well. Its macros are kept as they are spelled in
  \<open>netcdf.h\<close>; \<open>NC_error\<close> is any status other than \<open>NC_NOERR\<close>. An identifier
  variable (\<open>ncid\<close>, \<open>varid\<close>, a slot of \<open>dimids\<close>) is \<open>None\<close> while nothing has
  been stored in it.
\<close>

datatype nc_status = NC_NOERR | NC_error int

datatype nc_mode = NC_WRITE | NC_NETCDF4

datatype nc_type = NC_BYTE | NC_CHAR | NC_SHORT | NC_INT | NC_FLOAT | NC_DOUBLE

datatype nc_shuffle = NC_NOSHUFFLE | NC_SHUFFLE

text \<open>The conversion of an \<open>int\<close> argument to a 64-bit \<open>size_t\<close>.\<close>

definition size_t_of :: "cint \<Rightarrow> nat" where
  "size_t_of n = nat (sint n mod 2 ^ 64)"

datatype nc_call =
    Nc_create string "nc_mode list"
  | Nc_def_dim "cint option" string nat
  | Nc_def_var "cint option" string nc_type int "cint option list"
  | Nc_def_var_deflate "cint option" "cint option" nc_shuffle int int
  | Nc_enddef "cint option"
  | Nc_put_var "cint option" "cint option" "real list"
  | Nc_close "cint option"

text \<open>
  The environment of a run: whether \<open>malloc\<close> of a number of bytes succeeds, the decoder,
  and the netCDF library, which answers a call, given the calls made before it, with a
  status and the identifier it stores through the call's last pointer argument, if it
  stores one.
\<close>

record env =
  malloc_ok :: "nat \<Rightarrow> bool"
  read_geogrid :: "geogrid_args \<Rightarrow> (nat \<Rightarrow> real) \<times> cint"
  nc_lib :: "nc_call list \<Rightarrow> nc_call \<Rightarrow> nc_status \<times> cint option"

subsection \<open>Traces\<close>

text \<open>
  What a run does, in order: the texts it prints and the decoder call it makes.
  \<open>Nc_ok c\<close> is the line \<open>[OK] c\<close> and \<open>Nc_xx c s\<close> the line \<open>[XX] c: nc_strerror(s)\<close>
  of the macro \<open>NC\<close>, printed after the call \<open>c\<close> has returned.
\<close>

datatype event =
    Print_usage
  | Print_verbose config
  | Call_read_geogrid geogrid_args
  | Print_read_status int
  | Nc_ok nc_call
  | Nc_xx nc_call nc_status
  | Print_stat stat_line

datatype outcome = Exited int "event list" | Crashed fault "event list"

fun trace_of :: "outcome \<Rightarrow> event list" where
  "trace_of (Exited c tr) = tr"
| "trace_of (Crashed f tr) = tr"

fun call_of :: "event \<Rightarrow> nc_call option" where
  "call_of (Nc_ok c) = Some c"
| "call_of (Nc_xx c s) = Some c"
| "call_of _ = None"

definition calls_of :: "event list \<Rightarrow> nc_call list" where
  "calls_of tr = List.map_filter call_of tr"

text \<open>
  The macro \<open>NC(TST)\<close>: make the call, print \<open>[OK]\<close> or \<open>[XX]\<close>, go on in both cases.
  The result is the extended trace and what the call stored.
\<close>

definition NC :: "env \<Rightarrow> event list \<Rightarrow> nc_call \<Rightarrow> event list \<times> cint option" where
  "NC e tr c =
     (case nc_lib e (calls_of tr) c of
        (ncstatus, stored) \<Rightarrow>
          (tr @ [if ncstatus = NC_NOERR then Nc_ok c else Nc_xx c ncstatus], stored))"

definition store :: "cint option \<Rightarrow> cint option \<Rightarrow> cint option" where
  "store old stored = (case stored of None \<Rightarrow> old | Some v \<Rightarrow> Some v)"

text \<open>
  \<open>malloc(nx * ny * nz * sizeof(float))\<close>: the product of the three \<open>int\<close>s wraps at 32
  bits, is converted to \<open>size_t\<close> and multiplied by 4 at 64 bits. The result is the
  number of \<open>float\<close>s of the buffer, or \<open>None\<close> for the null pointer.
\<close>

definition malloc_floats :: "env \<Rightarrow> cint \<Rightarrow> nat option" where
  "malloc_floats e n =
     (let bytes = (size_t_of n * 4) mod 2 ^ 64
      in if malloc_ok e bytes then Some (bytes div 4) else None)"

definition buffer_after :: "nat option \<Rightarrow> (nat \<Rightarrow> real) \<Rightarrow> real list" where
  "buffer_after buf contents = (case buf of None \<Rightarrow> [] | Some n \<Rightarrow> map contents [0..<n])"

text \<open>
  The statements of \<open>main\<close> from \<open>nc_create\<close> to \<open>nc_close\<close>; the result is what they
  print. No netCDF call precedes them, so the trace of the calls starts empty.
\<close>

definition write_dataset ::
  "env \<Rightarrow> string \<Rightarrow> cint \<Rightarrow> cint \<Rightarrow> cint \<Rightarrow> real list \<Rightarrow> event list" where
  "write_dataset e outputfile nx ny nz data =
     (let (tr1, r) = NC e [] (Nc_create outputfile [NC_WRITE, NC_NETCDF4]);
          ncid = store None r;
          (tr5, varid) =
            (if 1 <s nz then
               (let (tr2, r) = NC e tr1 (Nc_def_dim ncid ''x'' (size_t_of nx));
                    dimids2 = store None r;
                    (tr3, r) = NC e tr2 (Nc_def_dim ncid ''y'' (size_t_of ny));
                    dimids1 = store None r;
                    (tr4, r) = NC e tr3 (Nc_def_dim ncid ''z'' (size_t_of nz));
                    dimids0 = store None r;
                    (tr5, r) = NC e tr4
                       (Nc_def_var ncid ''var'' NC_FLOAT 3 [dimids0, dimids1, dimids2])
                in (tr5, store None r))
             else
               (let (tr2, r) = NC e tr1 (Nc_def_dim ncid ''x'' (size_t_of nx));
                    dimids1 = store None r;
                    (tr3, r) = NC e tr2 (Nc_def_dim ncid ''y'' (size_t_of ny));
                    dimids0 = store None r;
                    (tr4, r) = NC e tr3
                       (Nc_def_var ncid ''var'' NC_FLOAT 2 [dimids0, dimids1, None])
                in (tr4, store None r)));
          (tr6, r) = NC e tr5 (Nc_def_var_deflate ncid varid NC_NOSHUFFLE 1 4);
          (tr7, r) = NC e tr6 (Nc_enddef ncid);
          (tr8, r) = NC e tr7 (Nc_put_var ncid varid data);
          (tr9, r) = NC e tr8 (Nc_close ncid)
      in tr9)"

definition geogrid_args_of :: "config \<Rightarrow> geogrid_args" where
  "geogrid_args_of cfg =
     \<lparr>arg_fname = cfg_inputfile cfg,
      arg_len = of_nat (length (cfg_inputfile cfg)),
      arg_nx = cfg_nx cfg, arg_ny = cfg_ny cfg, arg_nz = cfg_nz cfg,
      arg_isigned = cfg_issigned cfg, arg_endian = cfg_endianness cfg,
      arg_scalefactor = cfg_scale cfg, arg_wordsize = cfg_wsize cfg\<rparr>"

text \<open>The buffer \<open>data\<close> as \<open>main\<close> holds it after the call of the decoder.\<close>

definition decoded_data :: "env \<Rightarrow> config \<Rightarrow> real list" where
  "decoded_data e cfg =
     buffer_after (malloc_floats e (cfg_nx cfg * cfg_ny cfg * cfg_nz cfg))
       (fst (read_geogrid e (geogrid_args_of cfg)))"

text \<open>\<open>main\<close> after the option loop.\<close>

definition main_body :: "env \<Rightarrow> config \<Rightarrow> outcome" where
  "main_body e cfg =
     (if cfg_inputfile cfg = [] \<or> cfg_outputfile cfg = [] then Exited (- 1) [Print_usage]
      else
        (let nx = cfg_nx cfg; ny = cfg_ny cfg; nz = cfg_nz cfg;
             tr0 = (if cfg_verbose cfg \<noteq> 0 then [Print_verbose cfg] else []);
             data = decoded_data e cfg;
             status = snd (read_geogrid e (geogrid_args_of cfg));
             tr1 = tr0 @ [Call_read_geogrid (geogrid_args_of cfg),
                          Print_read_status (sint status)];
             tr2 = tr1 @ write_dataset e (cfg_outputfile cfg) nx ny nz data
         in case print_statistics data nx ny nz of
              (ls, None) \<Rightarrow> Exited 0 (tr2 @ map Print_stat ls)
            | (ls, Some f) \<Rightarrow> Crashed f (tr2 @ map Print_stat ls)))"

section \<open>Notions used to state the properties\<close>

text \<open>
  A field of \<open>nx * ny * nz\<close> samples: the extents are positive, their product is an
  \<open>int\<close> (nothing wraps), and the buffer holds at least that many samples.
\<close>

definition field_ok :: "real list \<Rightarrow> cint \<Rightarrow> cint \<Rightarrow> cint \<Rightarrow> bool" where
  "field_ok data nx ny nz \<longleftrightarrow>
     1 \<le> sint nx \<and> 1 \<le> sint ny \<and> 1 \<le> sint nz \<and>
     sint nx * sint ny * sint nz < 2 ^ 31 \<and>
     sint nx * sint ny * sint nz \<le> int (length data)"

text \<open>The samples of level \<open>z\<close> (counted from 0): the \<open>z\<close>-th block of \<open>nx * ny\<close> samples.\<close>

definition level_samples :: "real list \<Rightarrow> cint \<Rightarrow> cint \<Rightarrow> nat \<Rightarrow> real list" where
  "level_samples data nx ny z =
     (let n = nat (sint nx * sint ny) in take n (drop (z * n) data))"

text \<open>One pass of the body of the innermost loop over the accumulators.\<close>

definition accumulate :: "real \<Rightarrow> real \<times> real \<times> real \<Rightarrow> real \<times> real \<times> real" where
  "accumulate d acc =
     (case acc of (mn, mx, avg) \<Rightarrow>
        (if d < mn then d else mn, if d > mx then d else mx, double_add avg d))"

text \<open>The sum as the program forms it: from \<open>0.0\<close>, one sample after the other in the
  order of storage, every addition rounded.\<close>

definition double_sum :: "real list \<Rightarrow> real" where
  "double_sum xs = fold (\<lambda>d s. double_add s d) xs 0"

definition level_line :: "real list \<Rightarrow> cint \<Rightarrow> cint \<Rightarrow> nat \<Rightarrow> stat_line" where
  "level_line data nx ny z =
     (case fold accumulate (level_samples data nx ny z) (0, 0, 0) of
        (mn, mx, avg) \<Rightarrow> Stat_line (int z + 1) (mean_of avg (nx * ny)) mn mx)"

subsection \<open>The calls of the dataset writer\<close>

text \<open>
  The step a call belongs to; the identifier that the first call of a step stored, found
  by asking the library again with the calls made before it; and the lines that the macro
  \<open>NC\<close> prints for a sequence of calls, each according to the status of its own call.
\<close>

datatype nc_step = Create | Def_dim string | Def_var | Def_var_deflate | Enddef | Put_var | Close

fun step_of :: "nc_call \<Rightarrow> nc_step" where
  "step_of (Nc_create path mode) = Create"
| "step_of (Nc_def_dim ncid name len) = Def_dim name"
| "step_of (Nc_def_var ncid name xtype ndims dimids) = Def_var"
| "step_of (Nc_def_var_deflate ncid varid shuffle deflate level) = Def_var_deflate"
| "step_of (Nc_enddef ncid) = Enddef"
| "step_of (Nc_put_var ncid varid data) = Put_var"
| "step_of (Nc_close ncid) = Close"

fun stored_by :: "env \<Rightarrow> nc_call list \<Rightarrow> nc_step \<Rightarrow> nc_call list \<Rightarrow> cint option" where
  "stored_by e hist s [] = None"
| "stored_by e hist s (c # cs) =
     (if step_of c = s then snd (nc_lib e hist c) else stored_by e (hist @ [c]) s cs)"

fun reports :: "env \<Rightarrow> nc_call list \<Rightarrow> nc_call list \<Rightarrow> event list" where
  "reports e hist [] = []"
| "reports e hist (c # cs) =
     (if fst (nc_lib e hist c) = NC_NOERR then Nc_ok c else Nc_xx c (fst (nc_lib e hist c)))
       # reports e (hist @ [c]) cs"

definition dim_names :: "nc_call list \<Rightarrow> string list" where
  "dim_names cs = concat (map (\<lambda>c. case step_of c of Def_dim name \<Rightarrow> [name] | _ \<Rightarrow> []) cs)"

text \<open>
  The calls that \<open>main\<close> makes, written out: each call is given the identifiers that the
  calls before it stored.
\<close>

definition dataset_calls ::
  "env \<Rightarrow> string \<Rightarrow> cint \<Rightarrow> cint \<Rightarrow> cint \<Rightarrow> real list \<Rightarrow> nc_call list" where
  "dataset_calls e outputfile nx ny nz data =
     (let c1 = Nc_create outputfile [NC_WRITE, NC_NETCDF4];
          ncid = snd (nc_lib e [] c1);
          c2 = Nc_def_dim ncid ''x'' (size_t_of nx);
          c3 = Nc_def_dim ncid ''y'' (size_t_of ny)
      in if 1 <s nz then
           (let c4 = Nc_def_dim ncid ''z'' (size_t_of nz);
                c5 = Nc_def_var ncid ''var'' NC_FLOAT 3
                       [snd (nc_lib e [c1, c2, c3] c4), snd (nc_lib e [c1, c2] c3),
                        snd (nc_lib e [c1] c2)];
                varid = snd (nc_lib e [c1, c2, c3, c4] c5)
            in [c1, c2, c3, c4, c5, Nc_def_var_deflate ncid varid NC_NOSHUFFLE 1 4,
                Nc_enddef ncid, Nc_put_var ncid varid data, Nc_close ncid])
         else
           (let c5 = Nc_def_var ncid ''var'' NC_FLOAT 2
                       [snd (nc_lib e [c1, c2] c3), snd (nc_lib e [c1] c2), None];
                varid = snd (nc_lib e [c1, c2, c3] c5)
            in [c1, c2, c3, c5, Nc_def_var_deflate ncid varid NC_NOSHUFFLE 1 4,
                Nc_enddef ncid, Nc_put_var ncid varid data, Nc_close ncid]))"

subsection \<open>Sample environments and configurations\<close>

text \<open>
  A library that accepts every call and numbers the dimensions in the order of their
  definition, and one that rejects every call; a decoder that fills the buffer with
  \<open>1, 2, 3, \<dots>\<close> and one that fails (status 1) and leaves zeros; the options
  \<open>-i in.bin -o out.nc\<close>.
\<close>

definition nc_accepting :: "nc_call list \<Rightarrow> nc_call \<Rightarrow> nc_status \<times> cint option" where
  "nc_accepting hist c =
     (case c of
        Nc_create path mode \<Rightarrow> (NC_NOERR, Some 65536)
      | Nc_def_dim ncid name len \<Rightarrow> (NC_NOERR, Some (of_nat (length (dim_names hist))))
      | Nc_def_var ncid name xtype ndims dimids \<Rightarrow> (NC_NOERR, Some 0)
      | _ \<Rightarrow> (NC_NOERR, None))"

definition nc_failing :: "nc_call list \<Rightarrow> nc_call \<Rightarrow> nc_status \<times> cint option" where
  "nc_failing hist c = (NC_error (- 33), None)"

definition sample_env :: env where
  "sample_env =
     \<lparr>malloc_ok = (\<lambda>bytes. True), read_geogrid = (\<lambda>args. (\<lambda>n. real n + 1, 0)),
      nc_lib = nc_accepting\<rparr>"

definition failed_decode_env :: env where
  "failed_decode_env =
     \<lparr>malloc_ok = (\<lambda>bytes. True), read_geogrid = (\<lambda>args. (\<lambda>n. 0, 1)),
      nc_lib = nc_accepting\<rparr>"

definition failing_nc_env :: env where
  "failing_nc_env =
     \<lparr>malloc_ok = (\<lambda>bytes. True), read_geogrid = (\<lambda>args. (\<lambda>n. real n + 1, 0)),
      nc_lib = nc_failing\<rparr>"

definition sample_config :: config where
  "sample_config = initial_config\<lparr>cfg_inputfile := ''in.bin'', cfg_outputfile := ''out.nc''\<rparr>"

section \<open>Rounding to \<open>double\<close>\<close>

lemma binade_bounds:
  assumes "x \<noteq> 0"
  shows "2 powi binade x \<le> \<bar>x\<bar>" and "\<bar>x\<bar> < 2 powi (binade x + 1)"
proof -
  have "2 powi binade x \<le> \<bar>x\<bar> \<and> \<bar>x\<bar> < 2 powi (binade x + 1)"
  proof (cases "1 \<le> \<bar>x\<bar>")
    case True
    let ?m = "\<lfloor>\<bar>x\<bar>\<rfloor>"
    have m: "0 < ?m" using True by simp
    have b: "binade x = bitlen ?m - 1" using True by (simp add: binade_def)
    have b1: "1 \<le> bitlen ?m" using m bitlen_eq_zero_iff [of ?m] bitlen_nonneg [of ?m] by linarith
    have lo: "2 ^ nat (bitlen ?m - 1) \<le> ?m" and hi: "?m < 2 ^ nat (bitlen ?m)"
      using bitlen_bounds [OF m] by simp_all
    have "real_of_int (2 ^ nat (bitlen ?m - 1)) \<le> real_of_int ?m"
      using lo by (simp only: of_int_le_iff)
    also have "\<dots> \<le> \<bar>x\<bar>" by simp
    finally have l: "2 powi (bitlen ?m - 1) \<le> \<bar>x\<bar>"
      using b1 by (simp add: power_int_def)
    have "?m + 1 \<le> 2 ^ nat (bitlen ?m)" using hi by simp
    then have "real_of_int (?m + 1) \<le> real_of_int (2 ^ nat (bitlen ?m))"
      by (simp only: of_int_le_iff)
    moreover have "\<bar>x\<bar> < real_of_int (?m + 1)" by simp
    ultimately have "\<bar>x\<bar> < real_of_int (2 ^ nat (bitlen ?m))" by linarith
    then have h: "\<bar>x\<bar> < 2 powi (bitlen ?m)"
      using b1 by (simp add: power_int_def)
    show ?thesis using l h b by simp
  next
    case False
    let ?y = "1 / \<bar>x\<bar>"
    let ?c = "\<lceil>?y\<rceil> - 1"
    have x0: "0 < \<bar>x\<bar>" using assms by simp
    have y1: "1 < ?y" using False x0 by simp
    have c: "0 < ?c" using y1 by linarith
    have b: "binade x = - bitlen ?c" using False by (simp add: binade_def)
    have b1: "1 \<le> bitlen ?c" using c bitlen_eq_zero_iff [of ?c] bitlen_nonneg [of ?c] by linarith
    have lo: "2 ^ nat (bitlen ?c - 1) \<le> ?c" and hi: "?c < 2 ^ nat (bitlen ?c)"
      using bitlen_bounds [OF c] by simp_all
    have "real_of_int (2 ^ nat (bitlen ?c - 1)) \<le> real_of_int ?c"
      using lo by (simp only: of_int_le_iff)
    moreover have "real_of_int ?c < ?y" by linarith
    ultimately have "2 ^ nat (bitlen ?c - 1) < ?y" by simp
    then have "\<bar>x\<bar> * 2 ^ nat (bitlen ?c - 1) < 1"
      using x0 by (simp add: field_simps)
    then have "\<bar>x\<bar> < 1 / 2 ^ nat (bitlen ?c - 1)"
      by (simp add: field_simps)
    also have "\<dots> = 2 powi (- bitlen ?c + 1)"
      using b1 by (simp add: power_int_def nat_diff_distrib field_simps)
    finally have h: "\<bar>x\<bar> < 2 powi (- bitlen ?c + 1)" .
    have "?c + 1 \<le> 2 ^ nat (bitlen ?c)" using hi by simp
    then have "real_of_int (?c + 1) \<le> real_of_int (2 ^ nat (bitlen ?c))"
      by (simp only: of_int_le_iff)
    moreover have "?y \<le> real_of_int \<lceil>?y\<rceil>" by (rule le_of_int_ceiling)
    moreover have "real_of_int (?c + 1) = real_of_int \<lceil>?y\<rceil>" by simp
    ultimately have "?y \<le> real_of_int (2 ^ nat (bitlen ?c))" by linarith
    then have "?y \<le> 2 ^ nat (bitlen ?c)" by simp
    then have "1 \<le> \<bar>x\<bar> * 2 ^ nat (bitlen ?c)"
      using x0 by (simp add: field_simps)
    then have "1 / 2 ^ nat (bitlen ?c) \<le> \<bar>x\<bar>"
      by (simp add: field_simps)
    moreover have "1 / 2 ^ nat (bitlen ?c) = (2 :: real) powi (- bitlen ?c)"
      using b1 by (simp add: power_int_def field_simps)
    ultimately have l: "2 powi (- bitlen ?c) \<le> \<bar>x\<bar>" by simp
    show ?thesis using l h b by simp
  qed
  then show "2 powi binade x \<le> \<bar>x\<bar>" and "\<bar>x\<bar> < 2 powi (binade x + 1)" by simp_all
qed

lemma binade_eqI:
  assumes "2 powi e \<le> \<bar>x\<bar>" and "\<bar>x\<bar> < 2 powi (e + 1)"
  shows "binade x = e"
proof -
  have pos: "(0 :: real) < 2 powi e" by simp
  have x: "x \<noteq> 0"
  proof
    assume "x = 0"
    then have "2 powi e \<le> (0 :: real)" using assms(1) by simp
    then show False using pos by linarith
  qed
  have "(2 :: real) powi e < 2 powi (binade x + 1)"
    using assms(1) binade_bounds(2) [OF x] by linarith
  then have a: "e < binade x + 1"
    by (metis linorder_not_less one_le_numeral power_int_increasing)
  have "(2 :: real) powi binade x < 2 powi (e + 1)"
    using assms(2) binade_bounds(1) [OF x] by linarith
  then have "binade x < e + 1"
    by (metis linorder_not_less one_le_numeral power_int_increasing)
  then show ?thesis using a by linarith
qed

lemma binade_floor_log:
  assumes "x \<noteq> 0"
  shows "binade x = \<lfloor>log 2 \<bar>x\<bar>\<rfloor>"
proof -
  have e: "(2 :: real) powr real_of_int k = 2 powi k" for k :: int
    by (simp add: powr_real_of_int' power_int_def power_inverse)
  have "2 powr real_of_int (binade x) \<le> \<bar>x\<bar>"
    using binade_bounds(1) [OF assms] by (simp only: e)
  moreover have "\<bar>x\<bar> < 2 powr real_of_int (binade x + 1)"
    using binade_bounds(2) [OF assms] by (simp only: e)
  moreover have "real_of_int (binade x + 1) = real_of_int (binade x) + 1" by simp
  ultimately have "2 powr real_of_int (binade x) \<le> \<bar>x\<bar> \<and>
      \<bar>x\<bar> < 2 powr (real_of_int (binade x) + 1)" by simp
  moreover have "0 < \<bar>x\<bar>" using assms by simp
  ultimately have "\<lfloor>log 2 \<bar>x\<bar>\<rfloor> = binade x"
    using floor_log_eq_powr_iff [of "\<bar>x\<bar>" 2 "binade x"] by simp
  then show ?thesis by simp
qed

lemma round_even_of_int: "round_even (of_int k) = k"
  by (simp add: round_even_def)


lemma round_double_in_binade:
  assumes "2 powi e \<le> \<bar>x\<bar>" and "\<bar>x\<bar> < 2 powi (e + 1)"
  shows "round_double x = of_int (round_even (x / 2 powi (e - 52))) * 2 powi (e - 52)"
proof -
  have pos: "(0 :: real) < 2 powi e" by simp
  have "x \<noteq> 0"
  proof
    assume "x = 0"
    then have "2 powi e \<le> (0 :: real)" using assms(1) by simp
    then show False using pos by linarith
  qed
  then show ?thesis
    using binade_eqI [OF assms] by (simp add: round_double_def)
qed

lemma round_double_of_int:
  assumes "\<bar>n\<bar> < 2 ^ 53"
  shows "round_double (of_int n) = of_int n"
proof (cases "n = 0")
  case True
  then show ?thesis by (simp add: round_double_def)
next
  case False
  let ?x = "real_of_int n"
  let ?b = "binade ?x"
  have x: "?x \<noteq> 0" using False by simp
  have one: "1 \<le> \<bar>?x\<bar>" using False by (simp flip: of_int_abs)
  have "\<bar>?x\<bar> < 2 powi 53" using assms by (simp flip: of_int_abs)
  then have "(2 :: real) powi ?b < 2 powi 53"
    using binade_bounds(1) [OF x] by linarith
  then have hi: "?b < 53"
    by (metis linorder_not_less one_le_numeral power_int_increasing)
  define m where "m = nat (52 - ?b)"
  have u: "(2 :: real) powi (?b - 52) = 1 / 2 ^ m"
    using hi by (simp add: power_int_def m_def field_simps)
  have "?x / 2 powi (?b - 52) = real_of_int (n * 2 ^ m)"
    by (simp add: u)
  then have "round_even (?x / 2 powi (?b - 52)) = n * 2 ^ m"
    by (simp only: round_even_of_int)
  then show ?thesis
    using x by (simp add: round_double_def u)
qed

lemma round_double_numeral:
  assumes "(numeral k :: int) < 2 ^ 53"
  shows "round_double (numeral k) = numeral k"
    and "round_double (- numeral k) = - numeral k"
proof -
  show "round_double (numeral k) = numeral k"
    using round_double_of_int [of "numeral k"] assms by simp
  show "round_double (- numeral k) = - numeral k"
    using round_double_of_int [of "- numeral k"] assms by simp
qed

lemma round_double_0: "round_double 0 = 0"
  by (simp add: round_double_def)

lemma round_double_1: "round_double 1 = 1"
  using round_double_of_int [of 1] by simp

lemma round_double_two_60:
  "round_double 1152921504606846976 = 1152921504606846976"
  "round_double 1152921504606846977 = 1152921504606846976"
  by (subst round_double_in_binade [where e = 60]; simp add: round_even_def)+

lemmas double_eval =
  double_add_def double_div_def double_sum_def round_double_0 round_double_1
  round_double_numeral round_double_two_60

section \<open>The loops of \<open>print_statistics\<close> on a field\<close>

declare x_loop.simps [simp del] y_loop.simps [simp del] z_loop.simps [simp del]

lemma sint_word_of_int_cint:
  assumes "- (2 ^ 31) \<le> x" and "x < 2 ^ 31"
  shows "sint (word_of_int x :: cint) = x"
  using assms by (simp add: int_word_sint)

lemma sint_succ_sless:
  fixes i n :: cint
  assumes "i <s n"
  shows "sint (i + 1) = sint i + 1"
proof -
  have "sint i < sint n" using assms by (simp add: word_sless_alt)
  moreover have "sint n < 2 ^ 31" using sint_lt [of n] by simp
  moreover have "- (2 ^ 31) \<le> sint i" using sint_ge [of i] by simp
  ultimately have r: "- (2 ^ 31) \<le> sint i + 1" "sint i + 1 < 2 ^ 31" by simp_all
  have "i + 1 = word_of_int (sint i + 1)" by simp
  then have "sint (i + 1) = sint (word_of_int (sint i + 1) :: cint)" by simp
  also have "\<dots> = sint i + 1"
    using r by (rule sint_word_of_int_cint)
  finally show ?thesis .
qed

lemma index_bounds:
  fixes X Y Z K J I :: int
  assumes "1 \<le> X" "1 \<le> Y" "1 \<le> Z" "0 \<le> K" "K < Z" "0 \<le> J" "J < Y" "0 \<le> I" "I < X"
  shows "0 \<le> K * X * Y + J * X + I" and "K * X * Y + J * X + I < X * Y * Z"
proof -
  have "0 \<le> K * X * Y" using assms by simp
  moreover have "0 \<le> J * X" using assms by simp
  ultimately show "0 \<le> K * X * Y + J * X + I" using assms by linarith
  have a: "K * (X * Y) \<le> (Z - 1) * (X * Y)"
    using assms by (intro mult_right_mono) simp_all
  have b: "J * X \<le> (Y - 1) * X"
    using assms by (intro mult_right_mono) simp_all
  have "K * X * Y + J * X + I \<le> (Z - 1) * (X * Y) + (Y - 1) * X + (X - 1)"
  proof -
    have c: "K * X * Y = K * (X * Y)" by (simp add: mult.assoc)
    show ?thesis using a b c assms by linarith
  qed
  also have "\<dots> = X * Y * Z - 1" by (simp add: algebra_simps)
  finally show "K * X * Y + J * X + I < X * Y * Z" by simp
qed

lemma sint_sample_index:
  assumes "1 \<le> sint nx" "1 \<le> sint ny" "1 \<le> sint nz"
    and "sint nx * sint ny * sint nz < 2 ^ 31"
    and "0 \<le> sint k" "sint k < sint nz" "0 \<le> sint j" "sint j < sint ny"
    and "0 \<le> sint i" "sint i < sint nx"
  shows "sint (sample_index nx ny k j i) = sint k * sint nx * sint ny + sint j * sint nx + sint i"
proof -
  let ?m = "sint k * sint nx * sint ny + sint j * sint nx + sint i"
  have lo: "0 \<le> ?m" and hi: "?m < sint nx * sint ny * sint nz"
    using index_bounds [of "sint nx" "sint ny" "sint nz" "sint k" "sint j" "sint i"] assms
    by simp_all
  have "sample_index nx ny k j i = word_of_int ?m"
    by (simp add: sample_index_def)
  moreover have "sint (word_of_int ?m :: cint) = ?m"
    using lo hi assms(4) by (intro sint_word_of_int_cint) linarith+
  ultimately show ?thesis by simp
qed


lemma x_loop_run:
  assumes ok: "field_ok data nx ny nz"
    and k: "0 \<le> sint k" "sint k < sint nz"
    and j: "0 \<le> sint j" "sint j < sint ny"
    and i: "0 \<le> sint i" "sint i \<le> sint nx"
    and B: "B = sint k * sint nx * sint ny + sint j * sint nx"
  shows "x_loop data nx ny k j i acc =
         Inr (fold accumulate (map ((!) data) [nat (B + sint i) ..< nat (B + sint nx)]) acc)"
  using i
proof (induction "nat (sint nx - sint i)" arbitrary: i acc)
  case 0
  then have "\<not> i <s nx" by (simp add: word_sless_alt)
  moreover have "sint i = sint nx" using 0 by simp
  ultimately show ?case by (cases acc) (simp add: x_loop.simps)
next
  case (Suc n)
  obtain mn mx avg where acc: "acc = (mn, mx, avg)" by (cases acc)
  have lt: "sint i < sint nx" using Suc.hyps(2) by linarith
  then have il: "i <s nx" by (simp add: word_sless_alt)
  have dims: "1 \<le> sint nx" "1 \<le> sint ny" "1 \<le> sint nz"
    "sint nx * sint ny * sint nz < 2 ^ 31" "sint nx * sint ny * sint nz \<le> int (length data)"
    using ok by (simp_all add: field_ok_def)
  have ix: "sint (sample_index nx ny k j i) = B + sint i"
    using sint_sample_index [OF dims(1-4) k j Suc.prems(1) lt] B by simp
  have b0: "0 \<le> B + sint i" and b1: "B + sint i < sint nx * sint ny * sint nz"
    using index_bounds [OF dims(1-3) k j Suc.prems(1) lt] B by simp_all
  have rd: "read_sample data (sample_index nx ny k j i) = Inr (data ! nat (B + sint i))"
    using ix b0 b1 dims(5) by (simp add: read_sample_def)
  have s1: "sint (i + 1) = sint i + 1" using il by (rule sint_succ_sless)
  have n: "n = nat (sint nx - sint (i + 1))" using Suc.hyps(2) s1 by linarith
  have ih: "x_loop data nx ny k j (i + 1) (accumulate (data ! nat (B + sint i)) acc) =
        Inr (fold accumulate (map ((!) data) [nat (B + sint (i + 1)) ..< nat (B + sint nx)])
               (accumulate (data ! nat (B + sint i)) acc))"
    using Suc.hyps(1) [OF n] s1 Suc.prems(1) lt by simp
  have up: "[nat (B + sint i) ..< nat (B + sint nx)] =
        nat (B + sint i) # [nat (B + sint (i + 1)) ..< nat (B + sint nx)]"
  proof -
    have "nat (B + sint i) < nat (B + sint nx)" using b0 lt by linarith
    moreover have "nat (B + sint (i + 1)) = Suc (nat (B + sint i))" using s1 b0 by linarith
    ultimately show ?thesis by (simp add: upt_conv_Cons)
  qed
  have "x_loop data nx ny k j i acc =
        x_loop data nx ny k j (i + 1) (accumulate (data ! nat (B + sint i)) acc)"
    using il rd by (simp add: acc x_loop.simps [of data nx ny k j i] accumulate_def)
  then show ?case using ih up by simp
qed


lemma y_loop_run:
  assumes ok: "field_ok data nx ny nz"
    and k: "0 \<le> sint k" "sint k < sint nz"
    and j: "0 \<le> sint j" "sint j \<le> sint ny"
    and B: "B = sint k * sint nx * sint ny"
  shows "y_loop data nx ny k j acc =
         Inr (fold accumulate
                (map ((!) data) [nat (B + sint j * sint nx) ..< nat (B + sint ny * sint nx)]) acc)"
  using j
proof (induction "nat (sint ny - sint j)" arbitrary: j acc)
  case 0
  then have "\<not> j <s ny" by (simp add: word_sless_alt)
  moreover have "sint j = sint ny" using 0 by simp
  ultimately show ?case by (simp add: y_loop.simps)
next
  case (Suc n)
  have lt: "sint j < sint ny" using Suc.hyps(2) by linarith
  then have jl: "j <s ny" by (simp add: word_sless_alt)
  have dims: "1 \<le> sint nx" "1 \<le> sint ny" "1 \<le> sint nz"
    using ok by (simp_all add: field_ok_def)
  have s1: "sint (j + 1) = sint j + 1" using jl by (rule sint_succ_sless)
  have n: "n = nat (sint ny - sint (j + 1))" using Suc.hyps(2) s1 by linarith
  let ?a = "nat (B + sint j * sint nx)"
  let ?b = "nat (B + sint (j + 1) * sint nx)"
  let ?c = "nat (B + sint ny * sint nx)"
  have B0: "0 \<le> B" using B k dims by simp
  have jx: "0 \<le> sint j * sint nx" using Suc.prems(1) dims by simp
  have ab: "?a \<le> ?b" using s1 dims by (simp add: algebra_simps)
  have "sint (j + 1) * sint nx \<le> sint ny * sint nx"
    using s1 lt dims by (intro mult_right_mono) simp_all
  then have bc: "?b \<le> ?c" by simp
  have row: "x_loop data nx ny k j 0 acc = Inr (fold accumulate (map ((!) data) [?a ..< ?b]) acc)"
  proof -
    have "x_loop data nx ny k j 0 acc =
          Inr (fold accumulate (map ((!) data)
                 [nat (B + sint j * sint nx + sint (0 :: cint)) ..<
                  nat (B + sint j * sint nx + sint nx)]) acc)"
      using dims by (intro x_loop_run [OF ok k Suc.prems(1) lt]) (simp_all add: B)
    moreover have "B + sint j * sint nx + sint nx = B + sint (j + 1) * sint nx"
      using s1 by (simp add: algebra_simps)
    ultimately show ?thesis by simp
  qed
  have ih: "y_loop data nx ny k (j + 1) acc' =
        Inr (fold accumulate (map ((!) data) [?b ..< ?c]) acc')" for acc'
    using Suc.hyps(1) [OF n] s1 Suc.prems(1) lt by simp
  have "[?a ..< ?c] = [?a ..< ?b] @ [?b ..< ?c]"
    using ab bc by (metis le_Suc_ex upt_add_eq_append)
  moreover have "y_loop data nx ny k j acc =
        y_loop data nx ny k (j + 1) (fold accumulate (map ((!) data) [?a ..< ?b]) acc)"
    using jl row by (simp add: y_loop.simps [of data nx ny k j])
  ultimately show ?case using ih by simp
qed

lemma map_nth_upt_slice:
  assumes "a + n \<le> length xs"
  shows "map ((!) xs) [a ..< a + n] = take n (drop a xs)"
  using assms by (intro nth_equalityI) auto

lemma z_loop_run:
  assumes ok: "field_ok data nx ny nz"
    and k: "0 \<le> sint k" "sint k \<le> sint nz"
  shows "z_loop data nx ny nz k out =
         (out @ map (level_line data nx ny) [nat (sint k) ..< nat (sint nz)], None)"
  using k
proof (induction "nat (sint nz - sint k)" arbitrary: k out)
  case 0
  then have "\<not> k <s nz" by (simp add: word_sless_alt)
  moreover have "sint k = sint nz" using 0 by simp
  ultimately show ?case by (simp add: z_loop.simps)
next
  case (Suc n)
  have lt: "sint k < sint nz" using Suc.hyps(2) by linarith
  then have kl: "k <s nz" by (simp add: word_sless_alt)
  have dims: "1 \<le> sint nx" "1 \<le> sint ny" "1 \<le> sint nz"
    "sint nx * sint ny * sint nz < 2 ^ 31" "sint nx * sint ny * sint nz \<le> int (length data)"
    using ok by (simp_all add: field_ok_def)
  have s1: "sint (k + 1) = sint k + 1" using kl by (rule sint_succ_sless)
  have n: "n = nat (sint nz - sint (k + 1))" using Suc.hyps(2) s1 by linarith
  let ?K = "nat (sint k)"
  let ?n = "nat (sint nx * sint ny)"
  have xy: "0 \<le> sint nx * sint ny" using dims by simp
  have a: "nat (sint k * sint nx * sint ny) = ?K * ?n"
    using Suc.prems(1) xy by (simp add: nat_mult_distrib mult.assoc)
  have c: "sint ny * sint nx = sint nx * sint ny" by (rule mult.commute)
  have b: "nat (sint k * sint nx * sint ny + sint ny * sint nx) = ?K * ?n + ?n"
  proof -
    have p: "0 \<le> sint k * sint nx * sint ny" using Suc.prems(1) dims by simp
    have "nat (sint k * sint nx * sint ny + sint nx * sint ny) = ?K * ?n + ?n"
      by (simp only: nat_add_distrib [OF p xy] a)
    then show ?thesis by (simp only: c)
  qed
  have "(sint k + 1) * (sint nx * sint ny) \<le> sint nz * (sint nx * sint ny)"
    using lt xy by (intro mult_right_mono) simp_all
  then have "int (?K * ?n + ?n) \<le> int (length data)"
    using dims(5) Suc.prems(1) xy by (simp add: algebra_simps)
  then have len: "?K * ?n + ?n \<le> length data" by linarith
  have "y_loop data nx ny k 0 (0, 0, 0) =
        Inr (fold accumulate (map ((!) data)
               [nat (sint k * sint nx * sint ny + sint (0 :: cint) * sint nx) ..<
                nat (sint k * sint nx * sint ny + sint ny * sint nx)]) (0, 0, 0))"
    using dims by (intro y_loop_run [OF ok Suc.prems(1) lt]) simp_all
  then have lev: "y_loop data nx ny k 0 (0, 0, 0) =
        Inr (fold accumulate (level_samples data nx ny ?K) (0, 0, 0))"
    using a b map_nth_upt_slice [OF len] by (simp add: level_samples_def Let_def)
  obtain mn mx avg where acc: "fold accumulate (level_samples data nx ny ?K) (0, 0, 0) = (mn, mx, avg)"
    by (cases "fold accumulate (level_samples data nx ny ?K) (0, 0, 0)")
  have line: "Stat_line (sint (k + 1)) (mean_of avg (nx * ny)) mn mx = level_line data nx ny ?K"
    using acc s1 Suc.prems(1) by (simp add: level_line_def)
  have step: "z_loop data nx ny nz k out =
        z_loop data nx ny nz (k + 1) (out @ [level_line data nx ny ?K])"
    using kl lev acc line by (simp add: z_loop.simps [of data nx ny nz k])
  have up: "[?K ..< nat (sint nz)] = ?K # [nat (sint (k + 1)) ..< nat (sint nz)]"
  proof -
    have "?K < nat (sint nz)" using lt Suc.prems(1) by linarith
    moreover have "nat (sint (k + 1)) = Suc ?K" using s1 Suc.prems(1) by linarith
    ultimately show ?thesis by (simp add: upt_conv_Cons)
  qed
  show ?case
    using step Suc.hyps(1) [OF n] s1 Suc.prems(1) lt up by simp
qed

lemma print_statistics_run:
  assumes "field_ok data nx ny nz"
  shows "print_statistics data nx ny nz =
         (map (level_line data nx ny) [0 ..< nat (sint nz)], None)"
proof -
  have "1 \<le> sint nz" using assms by (simp add: field_ok_def)
  then show ?thesis
    using z_loop_run [OF assms, of 0 "[]"] by (simp add: print_statistics_def)
qed

lemma fold_accumulate:
  "fold accumulate xs (mn, mx, avg) =
     (fold min xs mn, fold max xs mx, fold (\<lambda>d s. double_add s d) xs avg)"
proof (induction xs arbitrary: mn mx avg)
  case Nil
  show ?case by simp
next
  case (Cons d xs)
  have "accumulate d (mn, mx, avg) = (min d mn, max d mx, double_add avg d)"
    by (simp add: accumulate_def min_def max_def)
  then show ?case using Cons.IH by simp
qed

lemma fold_min_zero: "fold min xs (0 :: real) = Min (insert 0 (set xs))"
  using Min.set_eq_fold [of 0 xs] by simp

lemma fold_max_zero: "fold max xs (0 :: real) = Max (insert 0 (set xs))"
  using Max.set_eq_fold [of 0 xs] by simp

lemma sint_mult_nx_ny:
  assumes "field_ok data nx ny nz"
  shows "sint (nx * ny) = sint nx * sint ny" and "1 \<le> sint nx * sint ny"
proof -
  have dims: "1 \<le> sint nx" "1 \<le> sint ny" "1 \<le> sint nz"
    "sint nx * sint ny * sint nz < 2 ^ 31"
    using assms by (simp_all add: field_ok_def)
  have p: "0 \<le> sint nx * sint ny" using dims by simp
  have "1 * 1 \<le> sint nx * sint ny"
    using dims by (intro mult_mono) simp_all
  then show q: "1 \<le> sint nx * sint ny" by simp
  have "sint nx * sint ny * 1 \<le> sint nx * sint ny * sint nz"
    using p dims(3) by (intro mult_left_mono) simp_all
  then have hi: "sint nx * sint ny < 2 ^ 31" using dims(4) by simp
  have "nx * ny = word_of_int (sint nx * sint ny)" by simp
  moreover have "sint (word_of_int (sint nx * sint ny) :: cint) = sint nx * sint ny"
    using p hi by (intro sint_word_of_int_cint) linarith+
  ultimately show "sint (nx * ny) = sint nx * sint ny" by simp
qed


lemma level_line_eq:
  assumes ok: "field_ok data nx ny nz" and z: "z < nat (sint nz)"
  shows "level_line data nx ny z =
         Stat_line (int z + 1)
           (Some (double_div (double_sum (level_samples data nx ny z)) (sint nx * sint ny)))
           (Min (insert 0 (set (level_samples data nx ny z))))
           (Max (insert 0 (set (level_samples data nx ny z))))"
proof -
  have m: "sint (nx * ny) = sint nx * sint ny" and xy: "1 \<le> sint nx * sint ny"
    using ok by (rule sint_mult_nx_ny)+
  have nz: "sint nx \<noteq> 0" "sint ny \<noteq> 0" using ok by (auto simp: field_ok_def)
  show ?thesis
    using m nz
    by (simp add: level_line_def fold_accumulate fold_min_zero fold_max_zero mean_of_def
          double_sum_def)
qed

section \<open>The zero seed of the minimum and the maximum\<close>

lemma x_loop_seed:
  assumes "x_loop data nx ny k j i acc = Inr acc'"
    and "fst acc \<le> 0" and "0 \<le> fst (snd acc)"
  shows "fst acc' \<le> 0 \<and> 0 \<le> fst (snd acc')"
  using assms
proof (induction data nx ny k j i acc rule: x_loop.induct)
  case (1 data nx ny k j i mn mx avg)
  show ?case
  proof (cases "i <s nx")
    case False
    then show ?thesis
      using "1.prems" by (simp add: x_loop.simps [of data nx ny k j i])
  next
    case True
    then obtain d where rd: "read_sample data (sample_index nx ny k j i) = Inr d"
      and run: "x_loop data nx ny k j (i + 1)
                  (if d < mn then d else mn, if d > mx then d else mx, double_add avg d) = Inr acc'"
      using "1.prems"(1)
      by (simp add: x_loop.simps [of data nx ny k j i] split: sum.splits)
    show ?thesis
      using "1.IH" [OF True rd run] "1.prems"(2,3) by simp
  qed
qed

lemma y_loop_seed:
  assumes "y_loop data nx ny k j acc = Inr acc'"
    and "fst acc \<le> 0" and "0 \<le> fst (snd acc)"
  shows "fst acc' \<le> 0 \<and> 0 \<le> fst (snd acc')"
  using assms
proof (induction data nx ny k j acc rule: y_loop.induct)
  case (1 data nx ny k j acc)
  show ?case
  proof (cases "j <s ny")
    case False
    then show ?thesis
      using "1.prems" by (simp add: y_loop.simps [of data nx ny k j])
  next
    case True
    then obtain acc1 where row: "x_loop data nx ny k j 0 acc = Inr acc1"
      and run: "y_loop data nx ny k (j + 1) acc1 = Inr acc'"
      using "1.prems"(1)
      by (simp add: y_loop.simps [of data nx ny k j] split: sum.splits)
    have "fst acc1 \<le> 0 \<and> 0 \<le> fst (snd acc1)"
      using row "1.prems"(2,3) by (rule x_loop_seed)
    then show ?thesis
      using "1.IH" [OF True row run] by simp
  qed
qed

lemma z_loop_seed:
  assumes "\<forall>l \<in> set out. line_min l \<le> 0 \<and> 0 \<le> line_max l"
  shows "\<forall>l \<in> set (fst (z_loop data nx ny nz k out)). line_min l \<le> 0 \<and> 0 \<le> line_max l"
  using assms
proof (induction data nx ny nz k out rule: z_loop.induct)
  case (1 data nx ny nz k out)
  show ?case
  proof (cases "k <s nz")
    case False
    then show ?thesis
      using "1.prems" by (simp add: z_loop.simps [of data nx ny nz k])
  next
    case True
    show ?thesis
    proof (cases "y_loop data nx ny k 0 (0, 0, 0)")
      case (Inl e)
      then show ?thesis
        using True "1.prems" by (simp add: z_loop.simps [of data nx ny nz k])
    next
      case (Inr acc)
      obtain mn mx avg where acc: "acc = (mn, mx, avg)" by (cases acc)
      have "fst acc \<le> 0 \<and> 0 \<le> fst (snd acc)"
        using Inr by (rule y_loop_seed) simp_all
      then have *: "\<forall>l \<in> set (out @ [Stat_line (sint (k + 1)) (mean_of avg (nx * ny)) mn mx]).
                   line_min l \<le> 0 \<and> 0 \<le> line_max l"
        using "1.prems" acc by simp
      have y: "y_loop data nx ny k 0 (0, 0, 0) = Inr (mn, mx, avg)" using Inr acc by simp
      note ih = "1.IH" [OF True y refl refl *]
      have step: "z_loop data nx ny nz k out = z_loop data nx ny nz (k + 1)
               (out @ [Stat_line (sint (k + 1)) (mean_of avg (nx * ny)) mn mx])"
        by (subst z_loop.simps) (simp add: True y)
      show ?thesis
        using ih by (simp only: step)
    qed
  qed
qed

section \<open>Properties of the level statistics\<close>

text \<open>
  Claim C1. On a field, every level \<open>z\<close> in \<open>[0, nz)\<close> gets its line, and the minimum
  and the maximum of the line are those of the level's samples together with the seed
  \<open>0.0\<close> of the accumulators (not the first sample): a level whose samples are all
  positive reports the minimum \<open>0.0\<close>, a level whose samples are all negative reports the
  maximum \<open>0.0\<close>. The level with the samples \<open>10.0\<close> and \<open>20.0\<close> reports minimum
  \<open>0.0\<close>, maximum \<open>20.0\<close> and mean \<open>15.0\<close>.
\<close>

theorem min_max_seeded_with_zero:
  assumes "field_ok data nx ny nz"
  shows "(\<exists>ls. print_statistics data nx ny nz = (ls, None) \<and> length ls = nat (sint nz) \<and>
            (\<forall>z < nat (sint nz).
               line_min (ls ! z) = Min (insert 0 (set (level_samples data nx ny z))) \<and>
               line_max (ls ! z) = Max (insert 0 (set (level_samples data nx ny z))) \<and>
               ((\<forall>d \<in> set (level_samples data nx ny z). 0 < d) \<longrightarrow> line_min (ls ! z) = 0) \<and>
               ((\<forall>d \<in> set (level_samples data nx ny z). d < 0) \<longrightarrow> line_max (ls ! z) = 0))) \<and>
         print_statistics [10, 20] 2 1 1 = ([Stat_line 1 (Some 15) 0 20], None)"
proof -
  let ?ls = "map (level_line data nx ny) [0 ..< nat (sint nz)]"
  have run: "print_statistics data nx ny nz = (?ls, None)"
    using assms by (rule print_statistics_run)
  have lev: "line_min (?ls ! z) = Min (insert 0 (set (level_samples data nx ny z))) \<and>
             line_max (?ls ! z) = Max (insert 0 (set (level_samples data nx ny z))) \<and>
             ((\<forall>d \<in> set (level_samples data nx ny z). 0 < d) \<longrightarrow> line_min (?ls ! z) = 0) \<and>
             ((\<forall>d \<in> set (level_samples data nx ny z). d < 0) \<longrightarrow> line_max (?ls ! z) = 0)"
    if z: "z < nat (sint nz)" for z
  proof -
    let ?xs = "level_samples data nx ny z"
    have l: "?ls ! z = level_line data nx ny z" using z by simp
    have mn: "line_min (?ls ! z) = Min (insert 0 (set ?xs))"
      and mx: "line_max (?ls ! z) = Max (insert 0 (set ?xs))"
      unfolding l level_line_eq [OF assms z] by simp_all
    have "Min (insert 0 (set ?xs)) = 0" if "\<forall>d \<in> set ?xs. 0 < d"
      using that by (intro Min_eqI) auto
    moreover have "Max (insert 0 (set ?xs)) = 0" if "\<forall>d \<in> set ?xs. d < 0"
      using that by (intro Max_eqI) auto
    ultimately show ?thesis using mn mx by simp
  qed
  have "print_statistics [10, 20] 2 1 1 = ([Stat_line 1 (Some 15) 0 20], None)"
    by (simp add: print_statistics_run field_ok_def level_line_def level_samples_def
          accumulate_def mean_of_def double_eval)
  moreover have "\<exists>ls. print_statistics data nx ny nz = (ls, None) \<and> length ls = nat (sint nz) \<and>
            (\<forall>z < nat (sint nz).
               line_min (ls ! z) = Min (insert 0 (set (level_samples data nx ny z))) \<and>
               line_max (ls ! z) = Max (insert 0 (set (level_samples data nx ny z))) \<and>
               ((\<forall>d \<in> set (level_samples data nx ny z). 0 < d) \<longrightarrow> line_min (ls ! z) = 0) \<and>
               ((\<forall>d \<in> set (level_samples data nx ny z). d < 0) \<longrightarrow> line_max (ls ! z) = 0))"
  proof (intro exI [of _ ?ls] conjI)
    show "print_statistics data nx ny nz = (?ls, None)" by (rule run)
    show "length ?ls = nat (sint nz)" by simp
    show "\<forall>z < nat (sint nz).
               line_min (?ls ! z) = Min (insert 0 (set (level_samples data nx ny z))) \<and>
               line_max (?ls ! z) = Max (insert 0 (set (level_samples data nx ny z))) \<and>
               ((\<forall>d \<in> set (level_samples data nx ny z). 0 < d) \<longrightarrow> line_min (?ls ! z) = 0) \<and>
               ((\<forall>d \<in> set (level_samples data nx ny z). d < 0) \<longrightarrow> line_max (?ls ! z) = 0)"
      using lev by blast
  qed
  ultimately show ?thesis by (intro conjI)
qed

theorem min_max_seeded_with_zero_witness:
  "field_ok [3, 4, - 1, - 2] 2 1 2 \<and>
   (\<exists>ls. print_statistics [3, 4, - 1, - 2] 2 1 2 = (ls, None) \<and>
         line_min (ls ! 0) = 0 \<and> line_max (ls ! 1) = 0)"
proof -
  have ok: "field_ok [3, 4, - 1, - 2] 2 1 2" by (simp add: field_ok_def)
  obtain ls where run: "print_statistics [3, 4, - 1, - 2] 2 1 2 = (ls, None)"
    and lev: "\<forall>z < nat (sint (2 :: cint)).
               line_min (ls ! z) = Min (insert 0 (set (level_samples [3, 4, - 1, - 2] 2 1 z))) \<and>
               line_max (ls ! z) = Max (insert 0 (set (level_samples [3, 4, - 1, - 2] 2 1 z))) \<and>
               ((\<forall>d \<in> set (level_samples [3, 4, - 1, - 2] 2 1 z). 0 < d) \<longrightarrow> line_min (ls ! z) = 0) \<and>
               ((\<forall>d \<in> set (level_samples [3, 4, - 1, - 2] 2 1 z). d < 0) \<longrightarrow> line_max (ls ! z) = 0)"
    using min_max_seeded_with_zero [OF ok] by blast
  have "\<forall>d \<in> set (level_samples [3, 4, - 1, - 2] 2 1 0). 0 < d"
    by (simp add: level_samples_def)
  moreover have "\<forall>d \<in> set (level_samples [3, 4, - 1, - 2] 2 1 1). d < 0"
    by (simp add: level_samples_def)
  moreover have "(0 :: nat) < nat (sint (2 :: cint))" "(1 :: nat) < nat (sint (2 :: cint))"
    by simp_all
  ultimately have "line_min (ls ! 0) = 0" "line_max (ls ! 1) = 0"
    using lev by blast+
  then show ?thesis using ok run by blast
qed




text \<open>
  Claim C9. Whatever the buffer and the extents are, every line that is printed has a
  minimum that is at most \<open>0.0\<close> and a maximum that is at least \<open>0.0\<close>.
\<close>

theorem reported_min_max_bracket_zero:
  "\<forall>l \<in> set (fst (print_statistics data nx ny nz)). line_min l \<le> 0 \<and> 0 \<le> line_max l"
  unfolding print_statistics_def by (rule z_loop_seed) simp

theorem reported_min_max_bracket_zero_witness:
  "Stat_line 1 (Some (- 15)) (- 20) 0 \<in> set (fst (print_statistics [- 10, - 20] 1 2 1)) \<and>
   line_min (Stat_line 1 (Some (- 15)) (- 20) 0) \<le> 0 \<and>
   0 \<le> line_max (Stat_line 1 (Some (- 15)) (- 20) 0)"
proof -
  have m: "Stat_line 1 (Some (- 15)) (- 20) 0 \<in> set (fst (print_statistics [- 10, - 20] 1 2 1))"
    by (simp add: print_statistics_run field_ok_def level_line_def level_samples_def
          accumulate_def mean_of_def double_eval)
  show ?thesis
    using reported_min_max_bracket_zero [of "[- 10, - 20]" 1 2 1] m by blast
qed

text \<open>
  Claim C10, as stated, for all \<open>nx, ny, nz \<ge> 1\<close>: it fails where the \<open>int\<close>
  arithmetic wraps. With \<open>nx = ny = 65536\<close> and \<open>nz = 1\<close> the subscript of
  \<open>k = 0, j = 32768, i = 0\<close> is \<open>- 2147483648\<close>; the product \<open>nx * ny * nz\<close> that
  sizes the buffer is 0, and the first read of the statistics is already outside it.
\<close>

theorem sample_index_wraps:
  "1 \<le> sint (65536 :: cint) \<and> 1 \<le> sint (1 :: cint) \<and>
   0 \<le> sint (0 :: cint) \<and> sint (0 :: cint) < sint (1 :: cint) \<and>
   0 \<le> sint (32768 :: cint) \<and> sint (32768 :: cint) < sint (65536 :: cint) \<and>
   sint (0 :: cint) < sint (65536 :: cint) \<and>
   sint (sample_index 65536 65536 0 32768 0) = - 2147483648 \<and>
   (65536 * 65536 * 1 :: cint) = 0 \<and>
   print_statistics [] 65536 65536 1 = ([], Some (Out_of_bounds 0))"
  by (simp add: print_statistics_def z_loop.simps [of _ _ _ _ 0] y_loop.simps [of _ _ _ _ 0]
       x_loop.simps [of _ _ _ _ _ 0] read_sample_def sample_index_def word_sless_alt)

text \<open>
  Claim C10, amended. For all \<open>nx, ny, nz \<ge> 1\<close> whose product is less than \<open>2^31\<close>
  (it is an \<open>int\<close>), every subscript \<open>k * nx * ny + j * nx + i\<close> with \<open>k\<close> in
  \<open>[0, nz)\<close>, \<open>j\<close> in \<open>[0, ny)\<close>, \<open>i\<close> in \<open>[0, nx)\<close> is computed without
  wrap-around and lies in \<open>[0, nx * ny * nz)\<close>, and the statistics never read outside a
  buffer of at least \<open>nx * ny * nz\<close> samples.
\<close>

theorem sample_index_in_buffer:
  assumes "1 \<le> sint nx" and "1 \<le> sint ny" and "1 \<le> sint nz"
    and "sint nx * sint ny * sint nz < 2 ^ 31"
  shows "(\<forall>k j i. 0 \<le> sint k \<and> sint k < sint nz \<and> 0 \<le> sint j \<and> sint j < sint ny \<and>
                  0 \<le> sint i \<and> sint i < sint nx \<longrightarrow>
            sint (sample_index nx ny k j i) =
              sint k * sint nx * sint ny + sint j * sint nx + sint i \<and>
            0 \<le> sint (sample_index nx ny k j i) \<and>
            sint (sample_index nx ny k j i) < sint nx * sint ny * sint nz) \<and>
         (\<forall>data. sint nx * sint ny * sint nz \<le> int (length data) \<longrightarrow>
            snd (print_statistics data nx ny nz) = None)"
proof (intro conjI allI impI)
  fix k j i :: cint
  assume r: "0 \<le> sint k \<and> sint k < sint nz \<and> 0 \<le> sint j \<and> sint j < sint ny \<and>
             0 \<le> sint i \<and> sint i < sint nx"
  then have k: "0 \<le> sint k" "sint k < sint nz" and j: "0 \<le> sint j" "sint j < sint ny"
    and i: "0 \<le> sint i" "sint i < sint nx" by simp_all
  show e: "sint (sample_index nx ny k j i) =
        sint k * sint nx * sint ny + sint j * sint nx + sint i"
    using assms k j i by (rule sint_sample_index)
  show "0 \<le> sint (sample_index nx ny k j i)"
    unfolding e using assms(1-3) k j i by (rule index_bounds)
  show "sint (sample_index nx ny k j i) < sint nx * sint ny * sint nz"
    unfolding e using assms(1-3) k j i by (rule index_bounds)
next
  fix data :: "real list"
  assume "sint nx * sint ny * sint nz \<le> int (length data)"
  then have "field_ok data nx ny nz" using assms by (simp add: field_ok_def)
  then show "snd (print_statistics data nx ny nz) = None"
    by (simp add: print_statistics_run)
qed

theorem sample_index_in_buffer_witness:
  "1 \<le> sint (2 :: cint) \<and> 1 \<le> sint (3 :: cint) \<and> sint (2 :: cint) * sint (3 :: cint) * sint (2 :: cint) < 2 ^ 31 \<and>
   0 \<le> sint (1 :: cint) \<and> sint (1 :: cint) < sint (2 :: cint) \<and>
   0 \<le> sint (2 :: cint) \<and> sint (2 :: cint) < sint (3 :: cint) \<and>
   sint (sample_index 2 3 1 2 1) = 11 \<and>
   snd (print_statistics [1, 2, 3, 4, 5, 6, 7, 8, 9, 10, 11, 12] 2 3 2) = None"
proof -
  have h: "1 \<le> sint (2 :: cint)" "1 \<le> sint (3 :: cint)" "1 \<le> sint (2 :: cint)"
    "sint (2 :: cint) * sint (3 :: cint) * sint (2 :: cint) < 2 ^ 31"
    by simp_all
  note t = sample_index_in_buffer [OF h]
  have r: "0 \<le> sint (1 :: cint) \<and> sint (1 :: cint) < sint (2 :: cint) \<and>
           0 \<le> sint (2 :: cint) \<and> sint (2 :: cint) < sint (3 :: cint) \<and>
           0 \<le> sint (1 :: cint) \<and> sint (1 :: cint) < sint (2 :: cint)"
    by simp
  have "sint (sample_index 2 3 1 2 1) = sint (1 :: cint) * sint (2 :: cint) * sint (3 :: cint) + sint (2 :: cint) * sint (2 :: cint) + sint (1 :: cint)"
    using t r by blast
  then have a: "sint (sample_index 2 3 1 2 1) = 11" by simp
  have "sint (2 :: cint) * sint (3 :: cint) * sint (2 :: cint)
          \<le> int (length [1, 2, 3, 4, 5, 6, 7, 8, 9, 10, 11, 12 :: real])"
    by simp
  then have b: "snd (print_statistics [1, 2, 3, 4, 5, 6, 7, 8, 9, 10, 11, 12] 2 3 2) = None"
    using t by blast
  show ?thesis using a b by simp
qed

section \<open>The trace of a run\<close>

lemma calls_of_Nil: "calls_of [] = []"
  by (simp add: calls_of_def)

lemma calls_of_append: "calls_of (xs @ ys) = calls_of xs @ calls_of ys"
  by (simp add: calls_of_def map_filter_def)

lemma calls_of_report:
  "calls_of [if st = NC_NOERR then Nc_ok c else Nc_xx c st] = [c]"
  by (simp add: calls_of_def)

lemma calls_of_stats: "calls_of (map Print_stat ls) = []"
  by (induction ls) (simp_all add: calls_of_def)

lemmas calls_simps = calls_of_Nil calls_of_append calls_of_report calls_of_stats

lemma calls_of_NC: "calls_of (fst (NC e tr c)) = calls_of tr @ [c]"
  by (simp add: NC_def split_def calls_simps)

lemma snd_NC: "snd (NC e tr c) = snd (nc_lib e (calls_of tr) c)"
  by (simp add: NC_def split_def)

lemma store_None: "store None r = r"
  by (cases r) (simp_all add: store_def)

lemma calls_of_write_dataset:
  "calls_of (write_dataset e out nx ny nz data) = dataset_calls e out nx ny nz data"
proof (cases "1 <s nz")
  case True
  then show ?thesis
    by (simp add: write_dataset_def dataset_calls_def Let_def split_def
          calls_of_NC snd_NC store_None calls_of_Nil)
next
  case False
  then show ?thesis
    by (simp add: write_dataset_def dataset_calls_def Let_def split_def
          calls_of_NC snd_NC store_None calls_of_Nil)
qed

lemma reports_snoc:
  "reports e h (cs @ [c]) =
     reports e h cs @
       [if fst (nc_lib e (h @ cs) c) = NC_NOERR then Nc_ok c
        else Nc_xx c (fst (nc_lib e (h @ cs) c))]"
  by (induction cs arbitrary: h) simp_all

lemma calls_of_Cons:
  "calls_of (ev # tr) = (case call_of ev of None \<Rightarrow> [] | Some c \<Rightarrow> [c]) @ calls_of tr"
  by (cases "call_of ev") (simp_all add: calls_of_def)

lemma NC_reports:
  assumes "tr = reports e [] (calls_of tr)"
  shows "fst (NC e tr c) = reports e [] (calls_of (fst (NC e tr c)))"
proof -
  let ?r = "if fst (nc_lib e (calls_of tr) c) = NC_NOERR then Nc_ok c
            else Nc_xx c (fst (nc_lib e (calls_of tr) c))"
  have "reports e [] (calls_of (fst (NC e tr c))) = reports e [] (calls_of tr @ [c])"
    by (simp only: calls_of_NC)
  also have "\<dots> = reports e [] (calls_of tr) @ [?r]"
    by (simp only: reports_snoc append_Nil)
  also have "\<dots> = tr @ [?r]"
    using assms [symmetric] by simp
  also have "\<dots> = fst (NC e tr c)"
    by (simp add: NC_def split_def)
  finally show ?thesis by (rule sym)
qed

lemma write_dataset_reports:
  "write_dataset e out nx ny nz data =
     reports e [] (calls_of (write_dataset e out nx ny nz data))"
proof (cases "1 <s nz")
  case True
  then show ?thesis
    unfolding write_dataset_def Let_def split_def
    by (simp only: if_True fst_conv snd_conv) (intro NC_reports, simp add: calls_of_Nil)
next
  case False
  then show ?thesis
    unfolding write_dataset_def Let_def split_def
    by (simp only: if_False fst_conv snd_conv) (intro NC_reports, simp add: calls_of_Nil)
qed

lemma main_body_trace:
  assumes "cfg_inputfile cfg \<noteq> []" and "cfg_outputfile cfg \<noteq> []"
  shows "trace_of (main_body e cfg) =
     (if cfg_verbose cfg \<noteq> 0 then [Print_verbose cfg] else []) @
     [Call_read_geogrid (geogrid_args_of cfg),
      Print_read_status (sint (snd (read_geogrid e (geogrid_args_of cfg))))] @
     write_dataset e (cfg_outputfile cfg) (cfg_nx cfg) (cfg_ny cfg) (cfg_nz cfg)
       (decoded_data e cfg) @
     map Print_stat
       (fst (print_statistics (decoded_data e cfg) (cfg_nx cfg) (cfg_ny cfg) (cfg_nz cfg)))"
  using assms by (simp add: main_body_def Let_def split: prod.splits option.splits)

lemma main_body_calls:
  assumes "cfg_inputfile cfg \<noteq> []" and "cfg_outputfile cfg \<noteq> []"
  shows "calls_of (trace_of (main_body e cfg)) =
     dataset_calls e (cfg_outputfile cfg) (cfg_nx cfg) (cfg_ny cfg) (cfg_nz cfg)
       (decoded_data e cfg)"
  unfolding main_body_trace [OF assms]
  by (simp add: calls_of_append calls_of_Cons calls_of_Nil calls_of_stats calls_of_write_dataset)

lemma main_body_on_field:
  assumes "cfg_inputfile cfg \<noteq> []" and "cfg_outputfile cfg \<noteq> []"
    and "field_ok (decoded_data e cfg) (cfg_nx cfg) (cfg_ny cfg) (cfg_nz cfg)"
  shows "main_body e cfg = Exited 0 (trace_of (main_body e cfg))"
    and "fst (print_statistics (decoded_data e cfg) (cfg_nx cfg) (cfg_ny cfg) (cfg_nz cfg)) =
         map (level_line (decoded_data e cfg) (cfg_nx cfg) (cfg_ny cfg))
           [0 ..< nat (sint (cfg_nz cfg))]"
  using assms by (simp_all add: main_body_def Let_def print_statistics_run)

lemma decoded_data_field:
  assumes "1 \<le> sint (cfg_nx cfg)" and "1 \<le> sint (cfg_ny cfg)" and "1 \<le> sint (cfg_nz cfg)"
    and "sint (cfg_nx cfg) * sint (cfg_ny cfg) * sint (cfg_nz cfg) < 2 ^ 31"
    and "malloc_ok e (4 * nat (sint (cfg_nx cfg) * sint (cfg_ny cfg) * sint (cfg_nz cfg)))"
  shows "field_ok (decoded_data e cfg) (cfg_nx cfg) (cfg_ny cfg) (cfg_nz cfg)"
proof -
  let ?p = "sint (cfg_nx cfg) * sint (cfg_ny cfg) * sint (cfg_nz cfg)"
  have "1 * 1 \<le> sint (cfg_nx cfg) * sint (cfg_ny cfg)"
    using assms(1,2) by (intro mult_mono) simp_all
  then have "0 \<le> sint (cfg_nx cfg) * sint (cfg_ny cfg)" by simp
  then have p0: "0 \<le> ?p" using assms(3) by simp
  have "cfg_nx cfg * cfg_ny cfg * cfg_nz cfg = word_of_int ?p" by simp
  moreover have "sint (word_of_int ?p :: cint) = ?p"
    using p0 assms(4) by (intro sint_word_of_int_cint) linarith+
  ultimately have s: "sint (cfg_nx cfg * cfg_ny cfg * cfg_nz cfg) = ?p" by simp
  have "(2 :: int) ^ 31 < 2 ^ 64" by simp
  then have "?p < 2 ^ 64" using assms(4) by linarith
  then have "size_t_of (cfg_nx cfg * cfg_ny cfg * cfg_nz cfg) = nat ?p"
    using p0 by (simp add: size_t_of_def s)
  moreover have "nat ?p * 4 < 2 ^ 64"
  proof -
    have "nat ?p < 2 ^ 31" using assms(4) p0 by (simp add: nat_less_iff)
    then have "nat ?p * 4 < 2 ^ 31 * 4" by simp
    also have "\<dots> < (2 :: nat) ^ 64" by simp
    finally show ?thesis .
  qed
  ultimately have "malloc_floats e (cfg_nx cfg * cfg_ny cfg * cfg_nz cfg) = Some (nat ?p)"
    using assms(5) by (simp add: malloc_floats_def Let_def mult.commute)
  then have "length (decoded_data e cfg) = nat ?p"
    by (simp add: decoded_data_def buffer_after_def)
  then show ?thesis using assms(1-4) p0 by (simp add: field_ok_def)
qed

lemmas run_defs =
  sample_config_def initial_config_def BIG_ENDIAN_def geogrid_args_of_def decoded_data_def
  malloc_floats_def size_t_of_def buffer_after_def dataset_calls_def dim_names_def
  nc_accepting_def nc_failing_def sample_env_def failed_decode_env_def failing_nc_env_def
  field_ok_def level_line_def level_samples_def accumulate_def mean_of_def double_eval Let_def
  word_sless_alt

lemma main_body_eval:
  assumes "cfg_inputfile cfg \<noteq> []" and "cfg_outputfile cfg \<noteq> []"
    and "field_ok (decoded_data e cfg) (cfg_nx cfg) (cfg_ny cfg) (cfg_nz cfg)"
  shows "main_body e cfg =
     Exited 0
       ((if cfg_verbose cfg \<noteq> 0 then [Print_verbose cfg] else []) @
        [Call_read_geogrid (geogrid_args_of cfg),
         Print_read_status (sint (snd (read_geogrid e (geogrid_args_of cfg))))] @
        reports e []
          (dataset_calls e (cfg_outputfile cfg) (cfg_nx cfg) (cfg_ny cfg) (cfg_nz cfg)
             (decoded_data e cfg)) @
        map Print_stat
          (map (level_line (decoded_data e cfg) (cfg_nx cfg) (cfg_ny cfg))
             [0 ..< nat (sint (cfg_nz cfg))]))"
proof -
  have "write_dataset e (cfg_outputfile cfg) (cfg_nx cfg) (cfg_ny cfg) (cfg_nz cfg)
          (decoded_data e cfg) =
        reports e []
          (dataset_calls e (cfg_outputfile cfg) (cfg_nx cfg) (cfg_ny cfg) (cfg_nz cfg)
             (decoded_data e cfg))"
    using write_dataset_reports [of e "cfg_outputfile cfg" "cfg_nx cfg" "cfg_ny cfg" "cfg_nz cfg" "decoded_data e cfg"]
    by (simp only: calls_of_write_dataset)
  then show ?thesis
    using main_body_on_field [OF assms] main_body_trace [OF assms(1,2), of e] by simp
qed

lemma filter_reports: "filter (\<lambda>ev. call_of ev \<noteq> None) (reports e h cs) = reports e h cs"
  by (induction cs arbitrary: h) simp_all

lemma filter_stats: "filter (\<lambda>ev. call_of ev \<noteq> None) (map Print_stat ls) = []"
  by (induction ls) simp_all

lemma steps_of_dataset_calls:
  "map step_of (dataset_calls e out nx ny nz data) =
     (if 1 <s nz
      then [Create, Def_dim ''x'', Def_dim ''y'', Def_dim ''z'', Def_var, Def_var_deflate,
            Enddef, Put_var, Close]
      else [Create, Def_dim ''x'', Def_dim ''y'', Def_var, Def_var_deflate,
            Enddef, Put_var, Close])"
  by (simp add: dataset_calls_def Let_def)

lemma main_body_after_decode:
  assumes "cfg_inputfile cfg \<noteq> []" and "cfg_outputfile cfg \<noteq> []"
  shows "trace_of (main_body e cfg) =
           (if cfg_verbose cfg \<noteq> 0 then [Print_verbose cfg] else []) @
           [Call_read_geogrid (geogrid_args_of cfg),
            Print_read_status (sint (snd (read_geogrid e (geogrid_args_of cfg))))] @
           write_dataset e (cfg_outputfile cfg) (cfg_nx cfg) (cfg_ny cfg) (cfg_nz cfg)
             (decoded_data e cfg) @
           map Print_stat
             (fst (print_statistics (decoded_data e cfg) (cfg_nx cfg) (cfg_ny cfg) (cfg_nz cfg))) \<and>
         map step_of
           (calls_of (write_dataset e (cfg_outputfile cfg) (cfg_nx cfg) (cfg_ny cfg) (cfg_nz cfg)
              (decoded_data e cfg))) =
           (if 1 <s cfg_nz cfg
            then [Create, Def_dim ''x'', Def_dim ''y'', Def_dim ''z'', Def_var, Def_var_deflate,
                  Enddef, Put_var, Close]
            else [Create, Def_dim ''x'', Def_dim ''y'', Def_var, Def_var_deflate,
                  Enddef, Put_var, Close]) \<and>
         main_body e cfg \<noteq> Exited (- 1) [Print_usage] \<and>
         (field_ok (decoded_data e cfg) (cfg_nx cfg) (cfg_ny cfg) (cfg_nz cfg) \<longrightarrow>
            main_body e cfg = Exited 0 (trace_of (main_body e cfg)) \<and>
            length (fst (print_statistics (decoded_data e cfg) (cfg_nx cfg) (cfg_ny cfg)
                           (cfg_nz cfg))) = nat (sint (cfg_nz cfg)))"
proof (intro conjI impI)
  show "trace_of (main_body e cfg) =
           (if cfg_verbose cfg \<noteq> 0 then [Print_verbose cfg] else []) @
           [Call_read_geogrid (geogrid_args_of cfg),
            Print_read_status (sint (snd (read_geogrid e (geogrid_args_of cfg))))] @
           write_dataset e (cfg_outputfile cfg) (cfg_nx cfg) (cfg_ny cfg) (cfg_nz cfg)
             (decoded_data e cfg) @
           map Print_stat
             (fst (print_statistics (decoded_data e cfg) (cfg_nx cfg) (cfg_ny cfg) (cfg_nz cfg)))"
    using assms by (rule main_body_trace)
  show "map step_of
           (calls_of (write_dataset e (cfg_outputfile cfg) (cfg_nx cfg) (cfg_ny cfg) (cfg_nz cfg)
              (decoded_data e cfg))) =
           (if 1 <s cfg_nz cfg
            then [Create, Def_dim ''x'', Def_dim ''y'', Def_dim ''z'', Def_var, Def_var_deflate,
                  Enddef, Put_var, Close]
            else [Create, Def_dim ''x'', Def_dim ''y'', Def_var, Def_var_deflate,
                  Enddef, Put_var, Close])"
    unfolding calls_of_write_dataset by (rule steps_of_dataset_calls)
  show "main_body e cfg \<noteq> Exited (- 1) [Print_usage]"
    using assms by (simp add: main_body_def Let_def split: prod.splits option.splits)
next
  assume ok: "field_ok (decoded_data e cfg) (cfg_nx cfg) (cfg_ny cfg) (cfg_nz cfg)"
  show "main_body e cfg = Exited 0 (trace_of (main_body e cfg))"
    using assms ok by (rule main_body_on_field(1))
  show "length (fst (print_statistics (decoded_data e cfg) (cfg_nx cfg) (cfg_ny cfg)
                       (cfg_nz cfg))) = nat (sint (cfg_nz cfg))"
    using main_body_on_field(2) [OF assms ok] by simp
qed

section \<open>Properties of the run\<close>

text \<open>
  Claim C2, as stated: a failed decode stops the run, and neither the dataset writer nor
  the statistics run. It fails: with a decoder that leaves the status 1, the run prints
  the status, makes all the netCDF calls on the buffer as it is, prints the statistics and
  exits with 0.
\<close>

theorem decode_failure_goes_on:
  "snd (read_geogrid failed_decode_env (geogrid_args_of sample_config)) = 1 \<and>
   main_body failed_decode_env sample_config =
     Exited 0
       [Call_read_geogrid
          \<lparr>arg_fname = ''in.bin'', arg_len = 6, arg_nx = 1, arg_ny = 1, arg_nz = 1,
           arg_isigned = 0, arg_endian = 0, arg_scalefactor = 1, arg_wordsize = 4\<rparr>,
        Print_read_status 1,
        Nc_ok (Nc_create ''out.nc'' [NC_WRITE, NC_NETCDF4]),
        Nc_ok (Nc_def_dim (Some 65536) ''x'' 1),
        Nc_ok (Nc_def_dim (Some 65536) ''y'' 1),
        Nc_ok (Nc_def_var (Some 65536) ''var'' NC_FLOAT 2 [Some 1, Some 0, None]),
        Nc_ok (Nc_def_var_deflate (Some 65536) (Some 0) NC_NOSHUFFLE 1 4),
        Nc_ok (Nc_enddef (Some 65536)),
        Nc_ok (Nc_put_var (Some 65536) (Some 0) [0]),
        Nc_ok (Nc_close (Some 65536)),
        Print_stat (Stat_line 1 (Some 0) 0 0)]"
proof -
  have p: "cfg_inputfile sample_config \<noteq> []" "cfg_outputfile sample_config \<noteq> []"
    by (simp_all add: run_defs)
  have f: "field_ok (decoded_data failed_decode_env sample_config) (cfg_nx sample_config)
             (cfg_ny sample_config) (cfg_nz sample_config)"
    by (simp add: run_defs)
  show ?thesis
    unfolding main_body_eval [OF p f] by (simp add: run_defs)
qed

text \<open>
  Claim C2, amended. In a run that reaches the decode step (the options are read and both
  paths are given), a failed decode (its status is not 0) does not stop it: the run
  prints the status, then attempts every step of the dataset writer on the buffer as the
  decoder left it, then runs the statistics over that buffer; when the buffer is a field,
  it prints one line per level and exits with 0.
\<close>

theorem decode_status_only_printed:
  assumes "cfg_inputfile cfg \<noteq> []" and "cfg_outputfile cfg \<noteq> []"
    and "snd (read_geogrid e (geogrid_args_of cfg)) \<noteq> 0"
  shows "trace_of (main_body e cfg) =
           (if cfg_verbose cfg \<noteq> 0 then [Print_verbose cfg] else []) @
           [Call_read_geogrid (geogrid_args_of cfg),
            Print_read_status (sint (snd (read_geogrid e (geogrid_args_of cfg))))] @
           write_dataset e (cfg_outputfile cfg) (cfg_nx cfg) (cfg_ny cfg) (cfg_nz cfg)
             (decoded_data e cfg) @
           map Print_stat
             (fst (print_statistics (decoded_data e cfg) (cfg_nx cfg) (cfg_ny cfg) (cfg_nz cfg))) \<and>
         map step_of
           (calls_of (write_dataset e (cfg_outputfile cfg) (cfg_nx cfg) (cfg_ny cfg) (cfg_nz cfg)
              (decoded_data e cfg))) =
           (if 1 <s cfg_nz cfg
            then [Create, Def_dim ''x'', Def_dim ''y'', Def_dim ''z'', Def_var, Def_var_deflate,
                  Enddef, Put_var, Close]
            else [Create, Def_dim ''x'', Def_dim ''y'', Def_var, Def_var_deflate,
                  Enddef, Put_var, Close]) \<and>
         main_body e cfg \<noteq> Exited (- 1) [Print_usage] \<and>
         (field_ok (decoded_data e cfg) (cfg_nx cfg) (cfg_ny cfg) (cfg_nz cfg) \<longrightarrow>
            main_body e cfg = Exited 0 (trace_of (main_body e cfg)) \<and>
            length (fst (print_statistics (decoded_data e cfg) (cfg_nx cfg) (cfg_ny cfg)
                           (cfg_nz cfg))) = nat (sint (cfg_nz cfg)))"
  using assms(1,2) by (rule main_body_after_decode)

theorem decode_status_only_printed_witness:
  "cfg_inputfile sample_config \<noteq> [] \<and> cfg_outputfile sample_config \<noteq> [] \<and>
   snd (read_geogrid failed_decode_env (geogrid_args_of sample_config)) \<noteq> 0 \<and>
   field_ok (decoded_data failed_decode_env sample_config) (cfg_nx sample_config)
     (cfg_ny sample_config) (cfg_nz sample_config) \<and>
   map step_of
     (calls_of (write_dataset failed_decode_env (cfg_outputfile sample_config)
        (cfg_nx sample_config) (cfg_ny sample_config) (cfg_nz sample_config)
        (decoded_data failed_decode_env sample_config))) =
     [Create, Def_dim ''x'', Def_dim ''y'', Def_var, Def_var_deflate, Enddef, Put_var, Close] \<and>
   main_body failed_decode_env sample_config =
     Exited 0 (trace_of (main_body failed_decode_env sample_config)) \<and>
   length (fst (print_statistics (decoded_data failed_decode_env sample_config)
                  (cfg_nx sample_config) (cfg_ny sample_config) (cfg_nz sample_config))) = 1"
proof -
  have p: "cfg_inputfile sample_config \<noteq> []" "cfg_outputfile sample_config \<noteq> []"
    by (simp_all add: run_defs)
  have s: "snd (read_geogrid failed_decode_env (geogrid_args_of sample_config)) \<noteq> 0"
    by (simp add: run_defs)
  have f: "field_ok (decoded_data failed_decode_env sample_config) (cfg_nx sample_config)
     (cfg_ny sample_config) (cfg_nz sample_config)"
    by (simp add: run_defs)
  have z: "\<not> 1 <s cfg_nz sample_config" "nat (sint (cfg_nz sample_config)) = 1"
    by (simp_all add: run_defs)
  note t = decode_status_only_printed [OF p s]
  have a: "map step_of
     (calls_of (write_dataset failed_decode_env (cfg_outputfile sample_config)
        (cfg_nx sample_config) (cfg_ny sample_config) (cfg_nz sample_config)
        (decoded_data failed_decode_env sample_config))) =
     [Create, Def_dim ''x'', Def_dim ''y'', Def_var, Def_var_deflate, Enddef, Put_var, Close]"
    using t [THEN conjunct2, THEN conjunct1] z(1) by simp
  note b = t [THEN conjunct2, THEN conjunct2, THEN conjunct2, THEN mp, OF f, unfolded z(2)]
  show ?thesis
    using p s f a b by blast
qed

text \<open>
  Claim C3, as stated: the dimensions are defined in the order \<open>z, y, x\<close> when
  \<open>nz > 1\<close> and \<open>y, x\<close> when \<open>nz = 1\<close>. It fails: with \<open>nz = 2\<close> the definitions
  are made in the order \<open>x, y, z\<close>, and with \<open>nz = 1\<close> in the order \<open>x, y\<close>.
\<close>

theorem dimensions_defined_x_first:
  "1 <s cfg_nz (sample_config\<lparr>cfg_nz := 2\<rparr>) \<and>
   dim_names (calls_of (trace_of (main_body sample_env (sample_config\<lparr>cfg_nz := 2\<rparr>)))) =
     [''x'', ''y'', ''z''] \<and>
   cfg_nz sample_config = 1 \<and>
   dim_names (calls_of (trace_of (main_body sample_env sample_config))) = [''x'', ''y'']"
proof -
  let ?cfg = "sample_config\<lparr>cfg_nz := 2\<rparr>"
  have p: "cfg_inputfile ?cfg \<noteq> []" "cfg_outputfile ?cfg \<noteq> []"
    by (simp_all add: run_defs)
  have q: "cfg_inputfile sample_config \<noteq> []" "cfg_outputfile sample_config \<noteq> []"
    by (simp_all add: run_defs)
  show ?thesis
    unfolding main_body_calls [OF p] main_body_calls [OF q]
    by (simp add: run_defs word_sless_alt)
qed

text \<open>
  Claim C3, amended. When writing the output dataset, the dimensions are defined in the
  order \<open>x\<close>, then \<open>y\<close>, then \<open>z\<close> when \<open>nz > 1\<close>, and \<open>x\<close> then \<open>y\<close>
  otherwise. (The order \<open>z, y, x\<close> is that of the variable's dimension list, claim C5.)
\<close>

theorem dimension_definition_order:
  assumes "cfg_inputfile cfg \<noteq> []" and "cfg_outputfile cfg \<noteq> []"
  shows "dim_names (calls_of (trace_of (main_body e cfg))) =
           (if 1 <s cfg_nz cfg then [''x'', ''y'', ''z''] else [''x'', ''y''])"
  unfolding main_body_calls [OF assms]
  by (simp add: dim_names_def dataset_calls_def Let_def)

theorem dimension_definition_order_witness:
  "cfg_inputfile (sample_config\<lparr>cfg_nz := 5\<rparr>) \<noteq> [] \<and>
   cfg_outputfile (sample_config\<lparr>cfg_nz := 5\<rparr>) \<noteq> [] \<and>
   dim_names (calls_of (trace_of (main_body failing_nc_env (sample_config\<lparr>cfg_nz := 5\<rparr>)))) =
     [''x'', ''y'', ''z'']"
proof -
  have p: "cfg_inputfile (sample_config\<lparr>cfg_nz := 5\<rparr>) \<noteq> []"
    "cfg_outputfile (sample_config\<lparr>cfg_nz := 5\<rparr>) \<noteq> []"
    by (simp_all add: run_defs)
  have z: "1 <s cfg_nz (sample_config\<lparr>cfg_nz := 5\<rparr>)"
    by (simp add: run_defs word_sless_alt)
  show ?thesis
    using dimension_definition_order [OF p, of failing_nc_env] p z by simp
qed

text \<open>
  Claim C4. Whatever the library answers, the run makes every call of the dataset writer
  (create, the definitions of the dimensions, of the variable and of its compression, end
  of definitions, write, close), in this order; the lines of the macro \<open>NC\<close> in the trace
  are one per call, each with the status of its own call; and on a field the run goes on
  to the statistics, prints one line per level and exits with 0.
\<close>

theorem writer_steps_all_attempted:
  assumes "cfg_inputfile cfg \<noteq> []" and "cfg_outputfile cfg \<noteq> []"
  shows "map step_of (calls_of (trace_of (main_body e cfg))) =
           (if 1 <s cfg_nz cfg
            then [Create, Def_dim ''x'', Def_dim ''y'', Def_dim ''z'', Def_var, Def_var_deflate,
                  Enddef, Put_var, Close]
            else [Create, Def_dim ''x'', Def_dim ''y'', Def_var, Def_var_deflate,
                  Enddef, Put_var, Close]) \<and>
         filter (\<lambda>ev. call_of ev \<noteq> None) (trace_of (main_body e cfg)) =
           reports e [] (calls_of (trace_of (main_body e cfg))) \<and>
         (field_ok (decoded_data e cfg) (cfg_nx cfg) (cfg_ny cfg) (cfg_nz cfg) \<longrightarrow>
            (\<exists>tr ls. main_body e cfg = Exited 0 (tr @ map Print_stat ls) \<and>
                     calls_of tr = calls_of (trace_of (main_body e cfg)) \<and>
                     print_statistics (decoded_data e cfg) (cfg_nx cfg) (cfg_ny cfg) (cfg_nz cfg) =
                       (ls, None) \<and>
                     length ls = nat (sint (cfg_nz cfg))))"
proof (intro conjI impI)
  let ?data = "decoded_data e cfg"
  let ?w = "write_dataset e (cfg_outputfile cfg) (cfg_nx cfg) (cfg_ny cfg) (cfg_nz cfg) ?data"
  let ?pre = "(if cfg_verbose cfg \<noteq> 0 then [Print_verbose cfg] else []) @
     [Call_read_geogrid (geogrid_args_of cfg),
      Print_read_status (sint (snd (read_geogrid e (geogrid_args_of cfg))))]"
  have tr: "trace_of (main_body e cfg) = ?pre @ ?w @
      map Print_stat (fst (print_statistics ?data (cfg_nx cfg) (cfg_ny cfg) (cfg_nz cfg)))"
    using main_body_trace [OF assms, of e] by simp
  have cs: "calls_of (trace_of (main_body e cfg)) =
      dataset_calls e (cfg_outputfile cfg) (cfg_nx cfg) (cfg_ny cfg) (cfg_nz cfg) ?data"
    using assms by (rule main_body_calls)
  show "map step_of (calls_of (trace_of (main_body e cfg))) =
           (if 1 <s cfg_nz cfg
            then [Create, Def_dim ''x'', Def_dim ''y'', Def_dim ''z'', Def_var, Def_var_deflate,
                  Enddef, Put_var, Close]
            else [Create, Def_dim ''x'', Def_dim ''y'', Def_var, Def_var_deflate,
                  Enddef, Put_var, Close])"
    unfolding cs by (rule steps_of_dataset_calls)
  have w: "?w = reports e [] (calls_of ?w)" by (rule write_dataset_reports)
  have "filter (\<lambda>ev. call_of ev \<noteq> None) ?w = ?w"
    by (subst (1 2) w) (rule filter_reports)
  then have "filter (\<lambda>ev. call_of ev \<noteq> None) (trace_of (main_body e cfg)) = ?w"
    unfolding tr by (simp add: filter_stats)
  also have "\<dots> = reports e [] (calls_of (trace_of (main_body e cfg)))"
    unfolding cs using w by (simp only: calls_of_write_dataset)
  finally show "filter (\<lambda>ev. call_of ev \<noteq> None) (trace_of (main_body e cfg)) =
           reports e [] (calls_of (trace_of (main_body e cfg)))" .
  assume ok: "field_ok ?data (cfg_nx cfg) (cfg_ny cfg) (cfg_nz cfg)"
  let ?ls = "map (level_line ?data (cfg_nx cfg) (cfg_ny cfg)) [0 ..< nat (sint (cfg_nz cfg))]"
  have run: "print_statistics ?data (cfg_nx cfg) (cfg_ny cfg) (cfg_nz cfg) = (?ls, None)"
    using ok by (rule print_statistics_run)
  have "main_body e cfg = Exited 0 ((?pre @ ?w) @ map Print_stat ?ls)"
    using main_body_on_field(1) [OF assms ok] tr run by simp
  moreover have "calls_of (?pre @ ?w) = calls_of (trace_of (main_body e cfg))"
    unfolding tr by (simp add: calls_of_append calls_of_Cons calls_of_Nil calls_of_stats)
  ultimately show "\<exists>tr ls. main_body e cfg = Exited 0 (tr @ map Print_stat ls) \<and>
                     calls_of tr = calls_of (trace_of (main_body e cfg)) \<and>
                     print_statistics ?data (cfg_nx cfg) (cfg_ny cfg) (cfg_nz cfg) = (ls, None) \<and>
                     length ls = nat (sint (cfg_nz cfg))"
    using run by (intro exI [of _ "?pre @ ?w"] exI [of _ ?ls]) simp
qed

theorem writer_steps_all_attempted_witness:
  "cfg_inputfile sample_config \<noteq> [] \<and> cfg_outputfile sample_config \<noteq> [] \<and>
   field_ok (decoded_data failing_nc_env sample_config) (cfg_nx sample_config)
     (cfg_ny sample_config) (cfg_nz sample_config) \<and>
   filter (\<lambda>ev. call_of ev \<noteq> None) (trace_of (main_body failing_nc_env sample_config)) =
     [Nc_xx (Nc_create ''out.nc'' [NC_WRITE, NC_NETCDF4]) (NC_error (- 33)),
      Nc_xx (Nc_def_dim None ''x'' 1) (NC_error (- 33)),
      Nc_xx (Nc_def_dim None ''y'' 1) (NC_error (- 33)),
      Nc_xx (Nc_def_var None ''var'' NC_FLOAT 2 [None, None, None]) (NC_error (- 33)),
      Nc_xx (Nc_def_var_deflate None None NC_NOSHUFFLE 1 4) (NC_error (- 33)),
      Nc_xx (Nc_enddef None) (NC_error (- 33)),
      Nc_xx (Nc_put_var None None [1]) (NC_error (- 33)),
      Nc_xx (Nc_close None) (NC_error (- 33))] \<and>
   (\<exists>tr ls. main_body failing_nc_env sample_config = Exited 0 (tr @ map Print_stat ls) \<and>
            length ls = 1)"
proof -
  have p: "cfg_inputfile sample_config \<noteq> []" "cfg_outputfile sample_config \<noteq> []"
    by (simp_all add: run_defs)
  have f: "field_ok (decoded_data failing_nc_env sample_config) (cfg_nx sample_config)
     (cfg_ny sample_config) (cfg_nz sample_config)"
    by (simp add: run_defs)
  note t = writer_steps_all_attempted [OF p, of failing_nc_env]
  have c: "calls_of (trace_of (main_body failing_nc_env sample_config)) =
     [Nc_create ''out.nc'' [NC_WRITE, NC_NETCDF4], Nc_def_dim None ''x'' 1,
      Nc_def_dim None ''y'' 1, Nc_def_var None ''var'' NC_FLOAT 2 [None, None, None],
      Nc_def_var_deflate None None NC_NOSHUFFLE 1 4, Nc_enddef None,
      Nc_put_var None None [1], Nc_close None]"
    unfolding main_body_calls [OF p] by (simp add: run_defs)
  have n: "nat (sint (cfg_nz sample_config)) = 1" by (simp add: run_defs)
  have "filter (\<lambda>ev. call_of ev \<noteq> None) (trace_of (main_body failing_nc_env sample_config)) =
      reports failing_nc_env [] (calls_of (trace_of (main_body failing_nc_env sample_config)))"
    using t by blast
  then have a: "filter (\<lambda>ev. call_of ev \<noteq> None) (trace_of (main_body failing_nc_env sample_config)) =
     [Nc_xx (Nc_create ''out.nc'' [NC_WRITE, NC_NETCDF4]) (NC_error (- 33)),
      Nc_xx (Nc_def_dim None ''x'' 1) (NC_error (- 33)),
      Nc_xx (Nc_def_dim None ''y'' 1) (NC_error (- 33)),
      Nc_xx (Nc_def_var None ''var'' NC_FLOAT 2 [None, None, None]) (NC_error (- 33)),
      Nc_xx (Nc_def_var_deflate None None NC_NOSHUFFLE 1 4) (NC_error (- 33)),
      Nc_xx (Nc_enddef None) (NC_error (- 33)),
      Nc_xx (Nc_put_var None None [1]) (NC_error (- 33)),
      Nc_xx (Nc_close None) (NC_error (- 33))]"
    unfolding c by (simp add: failing_nc_env_def nc_failing_def)
  have b: "\<exists>tr ls. main_body failing_nc_env sample_config = Exited 0 (tr @ map Print_stat ls) \<and>
            length ls = 1"
    using t f n by (metis (no_types, lifting))
  show ?thesis using p f a b by (intro conjI)
qed

text \<open>
  Claim C5. The rank of the variable follows \<open>nz\<close>: for \<open>nz > 1\<close> the one variable is
  defined with rank 3 over the identifiers stored for \<open>z\<close>, \<open>y\<close>, \<open>x\<close>, in this order;
  for \<open>nz = 1\<close> (and any \<open>nz \<le> 1\<close>) with rank 2 over those stored for \<open>y\<close>, \<open>x\<close>.
  \<open>x\<close> is the last, fastest varying dimension, and the buffer is written as it was
  decoded.
\<close>

theorem variable_rank_and_dimensions:
  assumes "cfg_inputfile cfg \<noteq> []" and "cfg_outputfile cfg \<noteq> []"
  shows "let cs = calls_of (trace_of (main_body e cfg));
             ncid = stored_by e [] Create cs;
             x = stored_by e [] (Def_dim ''x'') cs;
             y = stored_by e [] (Def_dim ''y'') cs;
             z = stored_by e [] (Def_dim ''z'') cs;
             varid = stored_by e [] Def_var cs
         in (1 <s cfg_nz cfg \<longrightarrow>
               filter (\<lambda>c. step_of c = Def_var) cs =
                 [Nc_def_var ncid ''var'' NC_FLOAT 3 [z, y, x]]) \<and>
            (sint (cfg_nz cfg) \<le> 1 \<longrightarrow>
               filter (\<lambda>c. step_of c = Def_var) cs =
                 [Nc_def_var ncid ''var'' NC_FLOAT 2 [y, x, None]]) \<and>
            filter (\<lambda>c. step_of c = Put_var) cs = [Nc_put_var ncid varid (decoded_data e cfg)]"
  unfolding main_body_calls [OF assms]
  by (simp add: dataset_calls_def Let_def word_sless_alt)

theorem variable_rank_and_dimensions_witness:
  "cfg_inputfile (sample_config\<lparr>cfg_nz := 5\<rparr>) \<noteq> [] \<and>
   cfg_outputfile (sample_config\<lparr>cfg_nz := 5\<rparr>) \<noteq> [] \<and>
   1 <s cfg_nz (sample_config\<lparr>cfg_nz := 5\<rparr>) \<and>
   filter (\<lambda>c. step_of c = Def_var)
     (calls_of (trace_of (main_body sample_env (sample_config\<lparr>cfg_nz := 5\<rparr>)))) =
     [Nc_def_var (Some 65536) ''var'' NC_FLOAT 3 [Some 2, Some 1, Some 0]] \<and>
   cfg_inputfile sample_config \<noteq> [] \<and> cfg_outputfile sample_config \<noteq> [] \<and>
   sint (cfg_nz sample_config) \<le> 1 \<and>
   filter (\<lambda>c. step_of c = Def_var) (calls_of (trace_of (main_body sample_env sample_config))) =
     [Nc_def_var (Some 65536) ''var'' NC_FLOAT 2 [Some 1, Some 0, None]]"
proof -
  let ?cfg = "sample_config\<lparr>cfg_nz := 5\<rparr>"
  have p: "cfg_inputfile ?cfg \<noteq> []" "cfg_outputfile ?cfg \<noteq> []"
    by (simp_all add: run_defs)
  have q: "cfg_inputfile sample_config \<noteq> []" "cfg_outputfile sample_config \<noteq> []"
    by (simp_all add: run_defs)
  have z: "1 <s cfg_nz ?cfg" "sint (cfg_nz sample_config) \<le> 1"
    by (simp_all add: run_defs word_sless_alt)
  have l: "nc_lib sample_env = nc_accepting" by (simp add: sample_env_def)
  have c5: "calls_of (trace_of (main_body sample_env ?cfg)) =
      [Nc_create ''out.nc'' [NC_WRITE, NC_NETCDF4], Nc_def_dim (Some 65536) ''x'' 1,
       Nc_def_dim (Some 65536) ''y'' 1, Nc_def_dim (Some 65536) ''z'' 5,
       Nc_def_var (Some 65536) ''var'' NC_FLOAT 3 [Some 2, Some 1, Some 0],
       Nc_def_var_deflate (Some 65536) (Some 0) NC_NOSHUFFLE 1 4, Nc_enddef (Some 65536),
       Nc_put_var (Some 65536) (Some 0) [1, 2, 3, 4, 5], Nc_close (Some 65536)]"
    unfolding main_body_calls [OF p] by (simp add: run_defs upt_conv_Cons)
  have c1: "calls_of (trace_of (main_body sample_env sample_config)) =
      [Nc_create ''out.nc'' [NC_WRITE, NC_NETCDF4], Nc_def_dim (Some 65536) ''x'' 1,
       Nc_def_dim (Some 65536) ''y'' 1,
       Nc_def_var (Some 65536) ''var'' NC_FLOAT 2 [Some 1, Some 0, None],
       Nc_def_var_deflate (Some 65536) (Some 0) NC_NOSHUFFLE 1 4, Nc_enddef (Some 65536),
       Nc_put_var (Some 65536) (Some 0) [1], Nc_close (Some 65536)]"
    unfolding main_body_calls [OF q] by (simp add: run_defs)
  have a: "filter (\<lambda>c. step_of c = Def_var) (calls_of (trace_of (main_body sample_env ?cfg))) =
     [Nc_def_var (Some 65536) ''var'' NC_FLOAT 3 [Some 2, Some 1, Some 0]]"
    using variable_rank_and_dimensions [OF p, of sample_env] z(1)
    by (simp add: Let_def c5 l nc_accepting_def dim_names_def)
  have b: "filter (\<lambda>c. step_of c = Def_var) (calls_of (trace_of (main_body sample_env sample_config))) =
     [Nc_def_var (Some 65536) ''var'' NC_FLOAT 2 [Some 1, Some 0, None]]"
    using variable_rank_and_dimensions [OF q, of sample_env] z(2)
    by (simp add: Let_def c1 l nc_accepting_def dim_names_def)
  show ?thesis using p q z a b by (intro conjI)
qed

text \<open>
  Claim C6. Exactly one variable is defined; it is named \<open>var\<close> and has the type
  \<open>NC_FLOAT\<close>. The one call that sets the compression is made for the identifier
  stored for this variable, with \<open>NC_NOSHUFFLE\<close>, deflate switched on and level 4.
\<close>

theorem one_float_variable_deflated:
  assumes "cfg_inputfile cfg \<noteq> []" and "cfg_outputfile cfg \<noteq> []"
  shows "let cs = calls_of (trace_of (main_body e cfg));
             ncid = stored_by e [] Create cs;
             varid = stored_by e [] Def_var cs
         in (\<exists>ndims dimids.
               filter (\<lambda>c. step_of c = Def_var) cs =
                 [Nc_def_var ncid ''var'' NC_FLOAT ndims dimids]) \<and>
            filter (\<lambda>c. step_of c = Def_var_deflate) cs =
              [Nc_def_var_deflate ncid varid NC_NOSHUFFLE 1 4]"
  unfolding main_body_calls [OF assms]
  by (simp add: dataset_calls_def Let_def)

theorem one_float_variable_deflated_witness:
  "cfg_inputfile sample_config \<noteq> [] \<and> cfg_outputfile sample_config \<noteq> [] \<and>
   filter (\<lambda>c. step_of c = Def_var_deflate)
     (calls_of (trace_of (main_body sample_env sample_config))) =
     [Nc_def_var_deflate (Some 65536) (Some 0) NC_NOSHUFFLE 1 4]"
proof -
  have q: "cfg_inputfile sample_config \<noteq> []" "cfg_outputfile sample_config \<noteq> []"
    by (simp_all add: run_defs)
  have c1: "calls_of (trace_of (main_body sample_env sample_config)) =
      [Nc_create ''out.nc'' [NC_WRITE, NC_NETCDF4], Nc_def_dim (Some 65536) ''x'' 1,
       Nc_def_dim (Some 65536) ''y'' 1,
       Nc_def_var (Some 65536) ''var'' NC_FLOAT 2 [Some 1, Some 0, None],
       Nc_def_var_deflate (Some 65536) (Some 0) NC_NOSHUFFLE 1 4, Nc_enddef (Some 65536),
       Nc_put_var (Some 65536) (Some 0) [1], Nc_close (Some 65536)]"
    unfolding main_body_calls [OF q] by (simp add: run_defs)
  have l: "nc_lib sample_env = nc_accepting" by (simp add: sample_env_def)
  have "filter (\<lambda>c. step_of c = Def_var_deflate)
     (calls_of (trace_of (main_body sample_env sample_config))) =
     [Nc_def_var_deflate (Some 65536) (Some 0) NC_NOSHUFFLE 1 4]"
    using one_float_variable_deflated [OF q, of sample_env]
    by (simp add: Let_def c1 l nc_accepting_def dim_names_def)
  then show ?thesis using q by (intro conjI)
qed

text \<open>
  Claim C8, as stated: a scale of 0 is rejected before any byte is read, and no decoding
  occurs. It fails: with the scale 0 the run calls the decoder, with the scale 0 among the
  arguments, and goes on to the dataset writer and the statistics.
\<close>

theorem scale_zero_reaches_decoder:
  "cfg_scale (sample_config\<lparr>cfg_scale := 0\<rparr>) = 0 \<and>
   main_body sample_env (sample_config\<lparr>cfg_scale := 0\<rparr>) =
     Exited 0
       [Call_read_geogrid
          \<lparr>arg_fname = ''in.bin'', arg_len = 6, arg_nx = 1, arg_ny = 1, arg_nz = 1,
           arg_isigned = 0, arg_endian = 0, arg_scalefactor = 0, arg_wordsize = 4\<rparr>,
        Print_read_status 0,
        Nc_ok (Nc_create ''out.nc'' [NC_WRITE, NC_NETCDF4]),
        Nc_ok (Nc_def_dim (Some 65536) ''x'' 1),
        Nc_ok (Nc_def_dim (Some 65536) ''y'' 1),
        Nc_ok (Nc_def_var (Some 65536) ''var'' NC_FLOAT 2 [Some 1, Some 0, None]),
        Nc_ok (Nc_def_var_deflate (Some 65536) (Some 0) NC_NOSHUFFLE 1 4),
        Nc_ok (Nc_enddef (Some 65536)),
        Nc_ok (Nc_put_var (Some 65536) (Some 0) [1]),
        Nc_ok (Nc_close (Some 65536)),
        Print_stat (Stat_line 1 (Some 1) 0 1)]"
proof -
  let ?cfg = "sample_config\<lparr>cfg_scale := 0\<rparr>"
  have p: "cfg_inputfile ?cfg \<noteq> []" "cfg_outputfile ?cfg \<noteq> []"
    by (simp_all add: run_defs)
  have f: "field_ok (decoded_data sample_env ?cfg) (cfg_nx ?cfg) (cfg_ny ?cfg) (cfg_nz ?cfg)"
    by (simp add: run_defs)
  show ?thesis
    unfolding main_body_eval [OF p f] by (simp add: run_defs)
qed

text \<open>
  Claim C8, amended. A scale of 0 is not rejected: in a run that reaches the decode step
  (the options are read and both paths are given), the decoder is called with the scale 0
  unchanged among its arguments, and the run goes on as for any other scale, through
  every step of the dataset writer and the statistics; when the buffer is a field, it
  prints one line per level and exits with 0.
\<close>

theorem scale_zero_not_rejected:
  assumes "cfg_scale cfg = 0"
    and "cfg_inputfile cfg \<noteq> []" and "cfg_outputfile cfg \<noteq> []"
  shows "arg_scalefactor (geogrid_args_of cfg) = 0 \<and>
         trace_of (main_body e cfg) =
           (if cfg_verbose cfg \<noteq> 0 then [Print_verbose cfg] else []) @
           [Call_read_geogrid (geogrid_args_of cfg),
            Print_read_status (sint (snd (read_geogrid e (geogrid_args_of cfg))))] @
           write_dataset e (cfg_outputfile cfg) (cfg_nx cfg) (cfg_ny cfg) (cfg_nz cfg)
             (decoded_data e cfg) @
           map Print_stat
             (fst (print_statistics (decoded_data e cfg) (cfg_nx cfg) (cfg_ny cfg) (cfg_nz cfg))) \<and>
         map step_of
           (calls_of (write_dataset e (cfg_outputfile cfg) (cfg_nx cfg) (cfg_ny cfg) (cfg_nz cfg)
              (decoded_data e cfg))) =
           (if 1 <s cfg_nz cfg
            then [Create, Def_dim ''x'', Def_dim ''y'', Def_dim ''z'', Def_var, Def_var_deflate,
                  Enddef, Put_var, Close]
            else [Create, Def_dim ''x'', Def_dim ''y'', Def_var, Def_var_deflate,
                  Enddef, Put_var, Close]) \<and>
         main_body e cfg \<noteq> Exited (- 1) [Print_usage] \<and>
         (field_ok (decoded_data e cfg) (cfg_nx cfg) (cfg_ny cfg) (cfg_nz cfg) \<longrightarrow>
            main_body e cfg = Exited 0 (trace_of (main_body e cfg)) \<and>
            length (fst (print_statistics (decoded_data e cfg) (cfg_nx cfg) (cfg_ny cfg)
                           (cfg_nz cfg))) = nat (sint (cfg_nz cfg)))"
proof -
  have a: "arg_scalefactor (geogrid_args_of cfg) = 0"
    using assms(1) by (simp add: geogrid_args_of_def)
  show ?thesis
    by (rule conjI [OF a main_body_after_decode [OF assms(2,3)]])
qed

theorem scale_zero_not_rejected_witness:
  "cfg_scale (sample_config\<lparr>cfg_scale := 0\<rparr>) = 0 \<and>
   cfg_inputfile (sample_config\<lparr>cfg_scale := 0\<rparr>) \<noteq> [] \<and>
   cfg_outputfile (sample_config\<lparr>cfg_scale := 0\<rparr>) \<noteq> [] \<and>
   field_ok (decoded_data failing_nc_env (sample_config\<lparr>cfg_scale := 0\<rparr>)) 1 1 1 \<and>
   trace_of (main_body failing_nc_env (sample_config\<lparr>cfg_scale := 0\<rparr>)) =
     [Call_read_geogrid
        \<lparr>arg_fname = ''in.bin'', arg_len = 6, arg_nx = 1, arg_ny = 1, arg_nz = 1,
         arg_isigned = 0, arg_endian = 0, arg_scalefactor = 0, arg_wordsize = 4\<rparr>,
      Print_read_status 0] @
     write_dataset failing_nc_env ''out.nc'' 1 1 1 [1] @
     map Print_stat (fst (print_statistics [1] 1 1 1)) \<and>
   main_body failing_nc_env (sample_config\<lparr>cfg_scale := 0\<rparr>) =
     Exited 0 (trace_of (main_body failing_nc_env (sample_config\<lparr>cfg_scale := 0\<rparr>))) \<and>
   length (fst (print_statistics [1] 1 1 1)) = 1"
proof -
  let ?cfg = "sample_config\<lparr>cfg_scale := 0\<rparr>"
  have s: "cfg_scale ?cfg = 0" by simp
  have p: "cfg_inputfile ?cfg \<noteq> []" "cfg_outputfile ?cfg \<noteq> []" by (simp_all add: run_defs)
  have c: "cfg_nx ?cfg = 1" "cfg_ny ?cfg = 1" "cfg_nz ?cfg = 1" "cfg_verbose ?cfg = 0"
    "cfg_outputfile ?cfg = ''out.nc''"
    by (simp_all add: run_defs)
  have d: "decoded_data failing_nc_env ?cfg = [1]" by (simp add: run_defs)
  have g: "geogrid_args_of ?cfg =
     \<lparr>arg_fname = ''in.bin'', arg_len = 6, arg_nx = 1, arg_ny = 1, arg_nz = 1,
      arg_isigned = 0, arg_endian = 0, arg_scalefactor = 0, arg_wordsize = 4\<rparr>"
    by (simp add: run_defs)
  have r: "snd (read_geogrid failing_nc_env x) = 0" for x
    by (simp add: failing_nc_env_def)
  have f: "field_ok (decoded_data failing_nc_env ?cfg) (cfg_nx ?cfg) (cfg_ny ?cfg) (cfg_nz ?cfg)"
    by (simp add: c d field_ok_def)
  note t = scale_zero_not_rejected [OF s p, of failing_nc_env]
  have tr: "trace_of (main_body failing_nc_env ?cfg) =
     [Call_read_geogrid
        \<lparr>arg_fname = ''in.bin'', arg_len = 6, arg_nx = 1, arg_ny = 1, arg_nz = 1,
         arg_isigned = 0, arg_endian = 0, arg_scalefactor = 0, arg_wordsize = 4\<rparr>,
      Print_read_status 0] @
     write_dataset failing_nc_env ''out.nc'' 1 1 1 [1] @
     map Print_stat (fst (print_statistics [1] 1 1 1))"
    using t [THEN conjunct2, THEN conjunct1] by (simp add: c d g r)
  note b = t [THEN conjunct2, THEN conjunct2, THEN conjunct2, THEN conjunct2, THEN mp, OF f]
  have ex: "main_body failing_nc_env ?cfg = Exited 0 (trace_of (main_body failing_nc_env ?cfg))"
    by (rule b [THEN conjunct1])
  have len: "length (fst (print_statistics [1] 1 1 1)) = 1"
    using b [THEN conjunct2] by (simp add: c d)
  have f1: "field_ok (decoded_data failing_nc_env ?cfg) 1 1 1"
    using f by (simp add: c)
  show ?thesis
    using s p f1 tr ex len by blast
qed

end
